theory Spec2Isabelle
  imports Complex_Main "HOL-Library.List_Lexorder" "HOL-Library.Char_ord"
begin

section \<open>Scope\<close>

text \<open>
  The theory embeds \<^verbatim>\<open>src/Preprocessing.py\<close>: \<^verbatim>\<open>check_header\<close>,
  \<^verbatim>\<open>preprocessing\<close>, \<^verbatim>\<open>pca\<close> and \<^verbatim>\<open>tsne\<close>. The program is a sequence of calls
  into pandas, numpy and scikit-learn. Every library call it makes is a definition of its
  own here, named after the call, and the functions of the program are composed from
  these definitions in the order of the source. The library calls follow pandas 2 without
  copy-on-write:
  \<^item> \<^verbatim>\<open>Series.str.replace(c, '')\<close> compares characters (\<^verbatim>\<open>regex=False\<close> is the default
    since pandas 2.0; before, a pattern of more than one character was a regular
    expression);
  \<^item> \<^verbatim>\<open>get_dummies\<close> yields boolean columns;
  \<^item> \<^verbatim>\<open>df[feature].fillna(v, inplace=True)\<close> changes the column of \<open>df\<close>;
  \<^item> a column has dtype float64, int64, bool or object, and an object column holds
    strings and missing values only;
  \<^item> a cell of a float64 column is a rational number or NaN, the infinities are left
    out as cells; what float64 arithmetic makes of the cells (the mean of a column, the
    text of a float, the entries of a projection) is not computed here but taken as a
    parameter; an int64 is an integer without bound;
  \<^item> strings are sequences of ASCII characters, and the limit Python sets on the number
    of digits that \<^verbatim>\<open>int\<close> accepts is left out.
  The projections of scikit-learn check \<^verbatim>\<open>n_components\<close> as documented and return an
  array of the documented shape; their entries are a parameter as well.
\<close>

section \<open>Python values and exceptions\<close>

text \<open>
  The exceptions that can leave \<^verbatim>\<open>Preprocessing.py\<close>. A computation that may raise
  returns \<open>error + 'a\<close>, with \<open>Inl\<close> for the exception.
\<close>

datatype error =
    ValueError
  | KeyError
  | IndexError
  | AttributeError
  | OverflowError
  | FileNotFoundError
  | EmptyDataError

definition and_then :: "error + 'a \<Rightarrow> ('a \<Rightarrow> error + 'b) \<Rightarrow> error + 'b" where
  "and_then m f = (case m of Inl e \<Rightarrow> Inl e | Inr x \<Rightarrow> f x)"

subsection \<open>\<^verbatim>\<open>int(s)\<close> on a string\<close>

text \<open>
  Python's \<^verbatim>\<open>int(s)\<close> for a \<^verbatim>\<open>str\<close> in base 10: surrounding whitespace is
  ignored, one sign is allowed, then decimal digits, where single underscores may separate
  digits. Anything else raises \<^verbatim>\<open>ValueError\<close> (here: \<open>None\<close>). Strings are
  sequences of ASCII characters.
\<close>

definition is_space :: "char \<Rightarrow> bool" where
  "is_space c = (c \<in> set [CHR 0x20, CHR 0x09, CHR 0x0A, CHR 0x0B, CHR 0x0C, CHR 0x0D])"

definition is_digit :: "char \<Rightarrow> bool" where
  "is_digit c = (c \<in> set ''0123456789'')"

definition is_alpha :: "char \<Rightarrow> bool" where
  "is_alpha c = (c \<in> set ''abcdefghijklmnopqrstuvwxyzABCDEFGHIJKLMNOPQRSTUVWXYZ'')"

definition digit_val :: "char \<Rightarrow> nat" where
  "digit_val c = of_char c - of_char CHR ''0''"

definition strip :: "string \<Rightarrow> string" where
  "strip s = rev (dropWhile is_space (rev (dropWhile is_space s)))"

fun parse_digits :: "nat \<Rightarrow> string \<Rightarrow> nat option" where
  "parse_digits acc [] = Some acc"
| "parse_digits acc (c # cs) =
     (if is_digit c then parse_digits (10 * acc + digit_val c) cs
      else if c = CHR ''_'' then
        (case cs of
           [] \<Rightarrow> None
         | d # ds \<Rightarrow> if is_digit d then parse_digits (10 * acc + digit_val d) ds else None)
      else None)"

definition parse_unsigned :: "string \<Rightarrow> nat option" where
  "parse_unsigned s =
     (case s of
        [] \<Rightarrow> None
      | c # cs \<Rightarrow> if is_digit c then parse_digits (digit_val c) cs else None)"

definition py_int :: "string \<Rightarrow> int option" where
  "py_int s =
     (case strip s of
        [] \<Rightarrow> None
      | c # cs \<Rightarrow>
          if c = CHR ''-'' then map_option (\<lambda>n. - int n) (parse_unsigned cs)
          else if c = CHR ''+'' then map_option int (parse_unsigned cs)
          else map_option int (parse_unsigned (c # cs)))"

subsection \<open>\<^verbatim>\<open>str(i)\<close> on an integer\<close>

definition digit_char :: "nat \<Rightarrow> char" where
  "digit_char d = ''0123456789'' ! d"

fun str_nat :: "nat \<Rightarrow> string" where
  "str_nat n = (if n < 10 then [digit_char n] else str_nat (n div 10) @ [digit_char (n mod 10)])"

declare str_nat.simps [simp del]

definition str_int :: "int \<Rightarrow> string" where
  "str_int i = (if i < 0 then CHR ''-'' # str_nat (nat (- i)) else str_nat (nat i))"


definition str_bool :: "bool \<Rightarrow> string" where
  "str_bool b = (if b then ''True'' else ''False'')"

subsection \<open>\<^verbatim>\<open>round(x)\<close> on a float\<close>

text \<open>
  What float64 arithmetic returns: a finite number, an infinity or NaN. \<^verbatim>\<open>round(x)\<close>
  with one argument raises \<^verbatim>\<open>ValueError\<close> on NaN and \<^verbatim>\<open>OverflowError\<close> on an
  infinity, and otherwise returns the nearest integer, the even one of the two when \<open>x\<close>
  lies halfway.
\<close>

datatype float64 = Finite rat | PosInf | NegInf | NotANumber

definition round_half_even :: "rat \<Rightarrow> int" where
  "round_half_even q =
     (let f = \<lfloor>q\<rfloor>; d = q - of_int f
      in if d < 1 / 2 then f else if 1 / 2 < d then f + 1 else if even f then f else f + 1)"

fun py_round :: "float64 \<Rightarrow> error + int" where
  "py_round (Finite q) = Inr (round_half_even q)"
| "py_round PosInf = Inl OverflowError"
| "py_round NegInf = Inl OverflowError"
| "py_round NotANumber = Inl ValueError"

subsection \<open>\<^verbatim>\<open>s.replace(c, '')\<close> on a string\<close>

text \<open>
  Scanning from the left, every occurrence of \<open>c\<close> that starts at the current position is
  skipped; the empty \<open>c\<close> leaves the string as it is.
\<close>

function py_replace :: "string \<Rightarrow> string \<Rightarrow> string" where
  "py_replace c [] = []"
| "py_replace c (x # xs) =
     (if c \<noteq> [] \<and> take (length c) (x # xs) = c
      then py_replace c (drop (length c) (x # xs))
      else x # py_replace c xs)"
  by pat_completeness auto
termination
  by (relation "measure (\<lambda>(c, s). length s)") auto

text \<open>The string \<open>c\<close>, not empty, stands in \<open>s\<close> from position \<open>i\<close> on.\<close>

definition occurs_at :: "string \<Rightarrow> string \<Rightarrow> nat \<Rightarrow> bool" where
  "occurs_at c s i = (c \<noteq> [] \<and> take (length c) (drop i s) = c)"

section \<open>The pandas data model\<close>

text \<open>
  A column (a pandas \<^verbatim>\<open>Series\<close>) carries its dtype: \<^verbatim>\<open>float64\<close> with NaN as the
  missing value, \<^verbatim>\<open>int64\<close> and \<^verbatim>\<open>bool\<close> without missing values, and
  \<^verbatim>\<open>object\<close> holding strings or the missing value. A data frame is its number of rows
  (the length of its index) and its labelled columns in order; labels may repeat.
\<close>

type_synonym label = string

datatype column =
    FloatCol "rat option list"
  | IntCol "int list"
  | BoolCol "bool list"
  | ObjCol "string option list"

datatype dtype = Float64 | Int64 | Bool | Object

fun dtypes :: "column \<Rightarrow> dtype" where
  "dtypes (FloatCol xs) = Float64"
| "dtypes (IntCol xs) = Int64"
| "dtypes (BoolCol xs) = Bool"
| "dtypes (ObjCol xs) = Object"

fun col_len :: "column \<Rightarrow> nat" where
  "col_len (FloatCol xs) = length xs"
| "col_len (IntCol xs) = length xs"
| "col_len (BoolCol xs) = length xs"
| "col_len (ObjCol xs) = length xs"

record dataframe =
  nrows :: nat
  cols :: "(label \<times> column) list"

definition columns :: "dataframe \<Rightarrow> label list" where
  "columns df = map fst (cols df)"

text \<open>Every column of a data frame has one cell per row.\<close>

definition wf_df :: "dataframe \<Rightarrow> bool" where
  "wf_df df = list_all (\<lambda>(l, c). col_len c = nrows df) (cols df)"

text \<open>A later frame has the rows of an earlier one.\<close>

definition rows_kept :: "dataframe \<Rightarrow> dataframe \<Rightarrow> bool" where
  "rows_kept df df' = (nrows df' = nrows df \<and> wf_df df')"

subsection \<open>numpy arrays\<close>

datatype pyval = VNan | VFloat rat | VInt int | VBool bool | VStr string

datatype ndarray =
    Array1 "pyval list"
  | Array2 nat nat "pyval list list"

fun len :: "ndarray \<Rightarrow> nat" where
  "len (Array1 xs) = length xs"
| "len (Array2 r c m) = r"

fun ndim :: "ndarray \<Rightarrow> nat" where
  "ndim (Array1 xs) = 1"
| "ndim (Array2 r c m) = 2"

fun shape :: "ndarray \<Rightarrow> nat list" where
  "shape (Array1 xs) = [length xs]"
| "shape (Array2 r c m) = [r, c]"

text \<open>A matrix holds as many rows as its shape says, each of the width its shape says.\<close>

fun well_shaped :: "ndarray \<Rightarrow> bool" where
  "well_shaped (Array1 xs) = True"
| "well_shaped (Array2 r c m) = (length m = r \<and> list_all (\<lambda>row. length row = c) m)"


fun float_val :: "rat option \<Rightarrow> pyval" where
  "float_val None = VNan"
| "float_val (Some q) = VFloat q"

fun obj_val :: "string option \<Rightarrow> pyval" where
  "obj_val None = VNan"
| "obj_val (Some s) = VStr s"

fun cells :: "column \<Rightarrow> pyval list" where
  "cells (FloatCol xs) = map float_val xs"
| "cells (IntCol xs) = map VInt xs"
| "cells (BoolCol xs) = map VBool xs"
| "cells (ObjCol xs) = map obj_val xs"

text \<open>A column without a missing value.\<close>

definition no_missing :: "column \<Rightarrow> bool" where
  "no_missing c = (VNan \<notin> set (cells c))"

definition series_to_numpy :: "column \<Rightarrow> ndarray" where
  "series_to_numpy c = Array1 (cells c)"

text \<open>
  \<^verbatim>\<open>to_numpy()\<close> on a frame gives one row for each row of the index, read from the
  columns, each of which has that many cells in a well-formed frame. The conversion of
  the numbers of several dtypes to one dtype keeps their values and is left out.
\<close>

definition frame_to_numpy :: "dataframe \<Rightarrow> ndarray" where
  "frame_to_numpy df =
     Array2 (nrows df) (length (cols df))
       (map (\<lambda>i. map (\<lambda>(l, c). cells c ! i) (cols df)) [0..<nrows df])"

subsection \<open>Selecting, assigning and dropping columns\<close>

text \<open>
  \<^verbatim>\<open>df[f]\<close> raises \<^verbatim>\<open>KeyError\<close> for an unknown label, is a \<^verbatim>\<open>Series\<close> when
  one column carries the label and a \<^verbatim>\<open>DataFrame\<close> of all the columns carrying it
  otherwise.
\<close>

datatype selection = Series column | Frame dataframe

definition getitem :: "dataframe \<Rightarrow> label \<Rightarrow> error + selection" where
  "getitem df f =
     (case filter (\<lambda>(l, c). l = f) (cols df) of
        [] \<Rightarrow> Inl KeyError
      | [(l, c)] \<Rightarrow> Inr (Series c)
      | sel \<Rightarrow> Inr (Frame \<lparr>nrows = nrows df, cols = sel\<rparr>))"

definition to_numpy :: "selection \<Rightarrow> ndarray" where
  "to_numpy sel = (case sel of Series c \<Rightarrow> series_to_numpy c | Frame d \<Rightarrow> frame_to_numpy d)"

text \<open>\<^verbatim>\<open>df[f] = series\<close>: the columns labelled \<open>f\<close> are replaced, a new label is appended.\<close>

definition setitem :: "dataframe \<Rightarrow> label \<Rightarrow> column \<Rightarrow> dataframe" where
  "setitem df f c =
     (if f \<in> set (columns df)
      then df\<lparr>cols := map (\<lambda>(l, c'). if l = f then (l, c) else (l, c')) (cols df)\<rparr>
      else df\<lparr>cols := cols df @ [(f, c)]\<rparr>)"

text \<open>\<^verbatim>\<open>df.drop(f, axis=1)\<close> removes every column labelled \<open>f\<close> and raises when there is none.\<close>

definition drop_label :: "dataframe \<Rightarrow> label \<Rightarrow> error + dataframe" where
  "drop_label df f =
     (if f \<in> set (columns df)
      then Inr (df\<lparr>cols := filter (\<lambda>(l, c). l \<noteq> f) (cols df)\<rparr>)
      else Inl KeyError)"

text \<open>\<^verbatim>\<open>df.columns = header\<close> raises when the number of names is not the number of columns.\<close>

definition set_columns :: "dataframe \<Rightarrow> label list \<Rightarrow> error + dataframe" where
  "set_columns df header =
     (if length header = length (cols df)
      then Inr (df\<lparr>cols := zip header (map snd (cols df))\<rparr>)
      else Inl ValueError)"

text \<open>\<^verbatim>\<open>pd.concat([df, dummies], axis=1)\<close> for frames over the same index.\<close>

definition concat_columns :: "dataframe \<Rightarrow> (label \<times> column) list \<Rightarrow> dataframe" where
  "concat_columns df extra = df\<lparr>cols := cols df @ extra\<rparr>"

text \<open>A loop whose body may raise: the first exception ends it.\<close>

fun for_each :: "'a list \<Rightarrow> ('a \<Rightarrow> 's \<Rightarrow> error + 's) \<Rightarrow> 's \<Rightarrow> error + 's" where
  "for_each [] body s = Inr s"
| "for_each (x # xs) body s = and_then (body x s) (for_each xs body)"


section \<open>The program\<close>

subsection \<open>Loading\<close>

text \<open>
  \<^verbatim>\<open>pd.read_csv(f, na_values = missing_values)\<close>. What the path \<open>f\<close> leads to is
  either no file, a file without any record, or a table: the labels pandas takes from the
  first record of the file, the number of records after the first, and the typed columns
  pandas builds from those records, which depend on the tokens to be read as missing.
\<close>

datatype csv_file =
    NoSuchFile
  | NoRecords
  | Table "label list" nat "string list \<Rightarrow> column list"

definition read_csv :: "csv_file \<Rightarrow> string list \<Rightarrow> error + dataframe" where
  "read_csv f na_values =
     (case f of
        NoSuchFile \<Rightarrow> Inl FileNotFoundError
      | NoRecords \<Rightarrow> Inl EmptyDataError
      | Table first_record n body \<Rightarrow> Inr \<lparr>nrows = n, cols = zip first_record (body na_values)\<rparr>)"

text \<open>The table is rectangular: one column per label, one cell per record in each column.\<close>

definition wf_file :: "csv_file \<Rightarrow> string list \<Rightarrow> bool" where
  "wf_file f na_values =
     (case f of
        Table first_record n body \<Rightarrow>
          length (body na_values) = length first_record \<and>
          list_all (\<lambda>c. col_len c = n) (body na_values)
      | _ \<Rightarrow> True)"

subsection \<open>\<^verbatim>\<open>check_header\<close>\<close>

text \<open>The loop with its counter \<open>i\<close>; a label that \<^verbatim>\<open>int\<close> accepts ends the loop.\<close>

fun check_header_loop :: "label list \<Rightarrow> nat \<Rightarrow> nat" where
  "check_header_loop [] i = i"
| "check_header_loop (f # fs) i =
     (case py_int f of
        Some v \<Rightarrow> i + 1
      | None \<Rightarrow> check_header_loop fs i)"

definition check_header :: "dataframe \<Rightarrow> bool" where
  "check_header df = (let i = check_header_loop (columns df) 0 in if i \<noteq> 0 then False else True)"

subsection \<open>Removing characters\<close>

text \<open>
  \<^verbatim>\<open>[f for f in names if df[f].dtypes==object]\<close>: for a repeated label \<^verbatim>\<open>df[f]\<close> is a
  frame, the comparison is a \<^verbatim>\<open>Series\<close> of booleans and its truth value raises.
\<close>

fun str_features :: "label list \<Rightarrow> dataframe \<Rightarrow> error + label list" where
  "str_features [] df = Inr []"
| "str_features (f # fs) df =
     and_then (getitem df f) (\<lambda>sel.
       case sel of
         Frame d \<Rightarrow> Inl ValueError
       | Series c \<Rightarrow>
           and_then (str_features fs df) (\<lambda>rest.
             Inr (if dtypes c = Object then f # rest else rest)))"

text \<open>\<^verbatim>\<open>series.str.replace(c, '')\<close>: only an object column has the accessor; missing stays missing.\<close>

definition str_replace :: "string \<Rightarrow> column \<Rightarrow> error + column" where
  "str_replace c col =
     (case col of
        ObjCol xs \<Rightarrow> Inr (ObjCol (map (map_option (py_replace c)) xs))
      | _ \<Rightarrow> Inl AttributeError)"

text \<open>The same on any column: a column of another dtype is not a string feature and stays.\<close>

definition replace_col :: "string \<Rightarrow> column \<Rightarrow> column" where
  "replace_col c col =
     (case col of ObjCol xs \<Rightarrow> ObjCol (map (map_option (py_replace c)) xs) | _ \<Rightarrow> col)"

definition replace_all_cols :: "string \<Rightarrow> dataframe \<Rightarrow> dataframe" where
  "replace_all_cols c df = df\<lparr>cols := map (\<lambda>(l, col). (l, replace_col c col)) (cols df)\<rparr>"

text \<open>The labels of the object columns, and the replacement on the columns of some labels.\<close>

definition obj_labels :: "dataframe \<Rightarrow> label list" where
  "obj_labels df = map fst (filter (\<lambda>(l, c). dtypes c = Object) (cols df))"

definition replace_in :: "label set \<Rightarrow> string \<Rightarrow> dataframe \<Rightarrow> dataframe" where
  "replace_in S c df =
     df\<lparr>cols := map (\<lambda>(l, col). if l \<in> S then (l, replace_col c col) else (l, col)) (cols df)\<rparr>"

definition strip_feature :: "string \<Rightarrow> label \<Rightarrow> dataframe \<Rightarrow> error + dataframe" where
  "strip_feature c feature df =
     and_then (getitem df feature) (\<lambda>sel.
       case sel of
         Frame d \<Rightarrow> Inl AttributeError
       | Series col \<Rightarrow> and_then (str_replace c col) (\<lambda>col'. Inr (setitem df feature col')))"

definition strip_chars :: "label list \<Rightarrow> string list \<Rightarrow> dataframe \<Rightarrow> error + dataframe" where
  "strip_chars names chars df =
     and_then (str_features names df) (\<lambda>feats.
       for_each chars (\<lambda>c. for_each feats (strip_feature c)) df)"

subsection \<open>Filling missing values\<close>

definition dropna :: "'a option list \<Rightarrow> 'a list" where
  "dropna xs = [v. Some v \<leftarrow> xs]"

text \<open>
  \<^verbatim>\<open>series.mean()\<close> skips NaN and is NaN when nothing is left. The mean of the present
  values is computed in float64 arithmetic, which rounds and may overflow: \<open>fmean\<close> stands
  for that computation on the present values in their order.
\<close>

type_synonym float_mean = "rat list \<Rightarrow> float64"

definition mean :: "float_mean \<Rightarrow> rat option list \<Rightarrow> float64" where
  "mean fmean xs =
     (let vs = dropna xs
      in if vs = [] then NotANumber else fmean vs)"

text \<open>
  \<^verbatim>\<open>series.mode()\<close>: the values that occur most often among the present ones, in
  ascending order; \<^verbatim>\<open>[0]\<close> on the empty result raises \<^verbatim>\<open>KeyError\<close>.
\<close>

definition mode :: "'a::linorder list \<Rightarrow> 'a list" where
  "mode vs =
     (let m = fold max (map (count_list vs) vs) 0
      in filter (\<lambda>v. count_list vs v = m) (sort (remdups vs)))"

definition first_mode :: "'a::linorder list \<Rightarrow> error + 'a" where
  "first_mode vs = (case mode vs of [] \<Rightarrow> Inl KeyError | v # rest \<Rightarrow> Inr v)"

definition fillna :: "'a \<Rightarrow> 'a option list \<Rightarrow> 'a option list" where
  "fillna v xs = map (\<lambda>x. case x of None \<Rightarrow> Some v | Some y \<Rightarrow> Some y) xs"

text \<open>The body of the loop for one column: lines 84 to 88.\<close>

fun fill_column :: "float_mean \<Rightarrow> column \<Rightarrow> error + column" where
  "fill_column fmean (FloatCol xs) =
     and_then (py_round (mean fmean xs)) (\<lambda>m. Inr (FloatCol (fillna (of_int m) xs)))"
| "fill_column fmean (IntCol xs) = and_then (first_mode xs) (\<lambda>v. Inr (IntCol xs))"
| "fill_column fmean (BoolCol xs) = and_then (first_mode xs) (\<lambda>v. Inr (BoolCol xs))"
| "fill_column fmean (ObjCol xs) =
     and_then (first_mode (dropna xs)) (\<lambda>v. Inr (ObjCol (fillna v xs)))"

definition fill_feature :: "float_mean \<Rightarrow> label \<Rightarrow> dataframe \<Rightarrow> error + dataframe" where
  "fill_feature fmean feature df =
     and_then (getitem df feature) (\<lambda>sel.
       case sel of
         Frame d \<Rightarrow> Inl ValueError
       | Series col \<Rightarrow>
           and_then (fill_column fmean col) (\<lambda>col'. Inr (setitem df feature col')))"



subsection \<open>Encoding categorical features\<close>

text \<open>
  \<^verbatim>\<open>pd.get_dummies(series, prefix=p)\<close>: one boolean column for each present value, in
  ascending order of the values, labelled \<open>p_value\<close>. The text of a float is a parameter
  \<open>fstr\<close>.
\<close>

definition indicator :: "string \<Rightarrow> ('a \<Rightarrow> string) \<Rightarrow> 'b list \<Rightarrow> ('b \<Rightarrow> 'a \<Rightarrow> bool) \<Rightarrow> 'a \<Rightarrow> label \<times> column" where
  "indicator p str xs eq v = (p @ ''_'' @ str v, BoolCol (map (\<lambda>x. eq x v) xs))"

fun get_dummies_1d :: "(rat \<Rightarrow> string) \<Rightarrow> column \<Rightarrow> string \<Rightarrow> (label \<times> column) list" where
  "get_dummies_1d fstr (FloatCol xs) p =
     map (indicator p fstr xs (\<lambda>x v. x = Some v)) (sort (remdups (dropna xs)))"
| "get_dummies_1d fstr (IntCol xs) p =
     map (indicator p str_int xs (\<lambda>x v. x = v)) (sort (remdups xs))"
| "get_dummies_1d fstr (BoolCol xs) p =
     map (indicator p str_bool xs (\<lambda>x v. x = v)) (sort (remdups xs))"
| "get_dummies_1d fstr (ObjCol xs) p =
     map (indicator p (\<lambda>s. s) xs (\<lambda>x v. x = Some v)) (sort (remdups (dropna xs)))"

text \<open>Different floats of the column have different texts, as \<^verbatim>\<open>str\<close> gives them.\<close>

fun distinct_text :: "(rat \<Rightarrow> string) \<Rightarrow> column \<Rightarrow> bool" where
  "distinct_text fstr (FloatCol xs) = distinct (map fstr (remdups (dropna xs)))"
| "distinct_text fstr c = True"

text \<open>The number of different values present in a column.\<close>

definition nunique :: "column \<Rightarrow> nat" where
  "nunique c = card (set (cells c) - {VNan})"

text \<open>
  On a frame, the columns that are not of dtype object come first, unchanged, and each
  object column is encoded with the same prefix.
\<close>

definition get_dummies :: "(rat \<Rightarrow> string) \<Rightarrow> selection \<Rightarrow> string \<Rightarrow> (label \<times> column) list" where
  "get_dummies fstr sel p =
     (case sel of
        Series c \<Rightarrow> get_dummies_1d fstr c p
      | Frame d \<Rightarrow>
          filter (\<lambda>(l, c). dtypes c \<noteq> Object) (cols d) @
          concat (map (\<lambda>(l, c). get_dummies_1d fstr c p)
                    (filter (\<lambda>(l, c). dtypes c = Object) (cols d))))"

text \<open>The body of the loop for one categorical feature: lines 92 to 95.\<close>

definition encode_feature :: "(rat \<Rightarrow> string) \<Rightarrow> label \<Rightarrow> dataframe \<Rightarrow> error + dataframe" where
  "encode_feature fstr f df =
     and_then (getitem df f) (\<lambda>sel.
       let dummies = get_dummies fstr sel f;
           df1 = concat_columns df dummies
       in and_then (drop_label df1 f) (\<lambda>df2.
            case dummies of
              [] \<Rightarrow> Inl IndexError
            | (l0, c0) # rest \<Rightarrow> drop_label df2 l0))"

subsection \<open>Splitting into data and label\<close>

datatype outcome =
    ErrorMessage string
  | Cleaned ndarray ndarray "label list"

definition split :: "dataframe \<Rightarrow> error + outcome" where
  "split df =
     (let names = columns df
      in if names = [] then Inl IndexError
         else and_then (getitem df (last names)) (\<lambda>sel.
                and_then (drop_label df (last names)) (\<lambda>rest.
                  Inr (Cleaned (frame_to_numpy rest) (to_numpy sel) names))))"

subsection \<open>\<^verbatim>\<open>preprocessing\<close>\<close>

text \<open>Lines 69 to 104, on the frame whose header has been settled.\<close>

definition cleaning ::
  "float_mean \<Rightarrow> (rat \<Rightarrow> string) \<Rightarrow> dataframe \<Rightarrow> label list \<Rightarrow> string list \<Rightarrow> label list \<Rightarrow>
   error + outcome" where
  "cleaning fmean fstr df irrelevant_features chars categorical_features =
     and_then (for_each irrelevant_features (\<lambda>f df. drop_label df f) df) (\<lambda>df.
       let names = columns df
       in and_then (strip_chars names chars df) (\<lambda>df.
            and_then (for_each names (fill_feature fmean) df) (\<lambda>df.
              and_then (for_each categorical_features (encode_feature fstr) df) split)))"

definition no_header_message :: string where
  "no_header_message = ''Error: the dataset has no header, please enter the columns names''"

definition preprocessing ::
  "float_mean \<Rightarrow> (rat \<Rightarrow> string) \<Rightarrow> csv_file \<Rightarrow> string list \<Rightarrow> label list \<Rightarrow> string list \<Rightarrow>
   label list \<Rightarrow> label list \<Rightarrow> error + outcome" where
  "preprocessing fmean fstr f missing_values irrelevant_features chars categorical_features
       header =
     and_then (read_csv f missing_values) (\<lambda>df.
       if check_header df
       then cleaning fmean fstr df irrelevant_features chars categorical_features
       else if length header \<noteq> 0
       then and_then (set_columns df header) (\<lambda>df.
              cleaning fmean fstr df irrelevant_features chars categorical_features)
       else Inr (ErrorMessage no_header_message))"

subsection \<open>\<^verbatim>\<open>pca\<close> and \<^verbatim>\<open>tsne\<close>\<close>

text \<open>
  The two projections come from scikit-learn. \<^verbatim>\<open>PCA(n_components=n).fit_transform(X)\<close>
  wants a two-dimensional array and raises \<^verbatim>\<open>ValueError\<close> for a negative \<open>n\<close> and for
  an \<open>n\<close> above the smaller of the numbers of rows and columns of \<open>X\<close>;
  \<^verbatim>\<open>TSNE(n_components=n).fit_transform(X)\<close>, with its default method, raises it for a
  negative \<open>n\<close> and for \<open>n\<close> from 4 on. Past these checks the numerical routine either raises
  (on data it cannot use) or returns an array of one row for each row of \<open>X\<close> and \<open>n\<close>
  columns. The routine is floating-point code outside the program: \<open>solve n X\<close> stands
  for it and gives, when it returns, the entry for each row and component.
\<close>

type_synonym datalist = "ndarray \<times> ndarray \<times> label list"

type_synonym solver = "int \<Rightarrow> ndarray \<Rightarrow> error + (nat \<Rightarrow> nat \<Rightarrow> pyval)"

definition projected :: "nat \<Rightarrow> nat \<Rightarrow> (nat \<Rightarrow> nat \<Rightarrow> pyval) \<Rightarrow> ndarray" where
  "projected r k entry = Array2 r k (map (\<lambda>i. map (\<lambda>j. entry i j) [0..<k]) [0..<r])"

definition pca_fit_transform :: "solver \<Rightarrow> int \<Rightarrow> ndarray \<Rightarrow> error + ndarray" where
  "pca_fit_transform solve n X =
     (case X of
        Array1 xs \<Rightarrow> Inl ValueError
      | Array2 r c m \<Rightarrow>
          if n < 0 \<or> int (min r c) < n then Inl ValueError
          else and_then (solve n X) (\<lambda>entry. Inr (projected r (nat n) entry)))"

definition tsne_fit_transform :: "solver \<Rightarrow> int \<Rightarrow> ndarray \<Rightarrow> error + ndarray" where
  "tsne_fit_transform solve n X =
     (case X of
        Array1 xs \<Rightarrow> Inl ValueError
      | Array2 r c m \<Rightarrow>
          if n < 0 \<or> 4 \<le> n then Inl ValueError
          else and_then (solve n X) (\<lambda>entry. Inr (projected r (nat n) entry)))"

definition feature_names :: "int \<Rightarrow> label list" where
  "feature_names n = map (\<lambda>i. ''feature_'' @ str_int i) [1..n]"

definition pca :: "solver \<Rightarrow> datalist \<Rightarrow> int \<Rightarrow> error + datalist" where
  "pca solve datalist n =
     and_then (pca_fit_transform solve n (fst datalist)) (\<lambda>data_transformed.
       Inr (data_transformed, fst (snd datalist), feature_names n))"

definition tsne :: "solver \<Rightarrow> datalist \<Rightarrow> int \<Rightarrow> error + datalist" where
  "tsne solve datalist n =
     and_then (tsne_fit_transform solve n (fst datalist)) (\<lambda>data_transformed.
       Inr (data_transformed, fst (snd datalist), feature_names n))"

section \<open>Example inputs\<close>

text \<open>
  The text of a float in the examples, where every float has an integer value: Python
  writes the integer followed by \<^verbatim>\<open>.0\<close>.
\<close>

definition str_whole_float :: "rat \<Rightarrow> string" where
  "str_whole_float q = str_int \<lfloor>q\<rfloor> @ ''.0''"

text \<open>
  Two files in the manner of the two data sets named in the script: the kidney disease
  file starts with a header, the banknote file with a data record.
\<close>

definition kidney_file :: csv_file where
  "kidney_file =
     Table [''id'', ''age'', ''classification''] 3
       (\<lambda>na. [IntCol [0, 1, 2], FloatCol [Some 48, None, Some 62],
              ObjCol [Some ''ckd'', Some ''ckd'', Some ''notckd'']])"

definition kidney :: dataframe where
  "kidney =
     \<lparr>nrows = 3,
      cols = [(''id'', IntCol [0, 1, 2]), (''age'', FloatCol [Some 48, None, Some 62]),
              (''classification'', ObjCol [Some ''ckd'', Some ''ckd'', Some ''notckd''])]\<rparr>"

definition banknote_file :: csv_file where
  "banknote_file =
     Table [''3.6216'', ''0''] 2 (\<lambda>na. [FloatCol [Some (45459 / 10000), Some (3866 / 1000)], IntCol [0, 1]])"

definition banknote :: dataframe where
  "banknote =
     \<lparr>nrows = 2,
      cols = [(''3.6216'', FloatCol [Some (45459 / 10000), Some (3866 / 1000)]),
              (''0'', IntCol [0, 1])]\<rparr>"

text \<open>A file in which the label of an indicator column is the label of another column.\<close>

definition collision_file :: csv_file where
  "collision_file =
     Table [''c_b'', ''c'', ''y''] 2
       (\<lambda>na. [IntCol [1, 2], ObjCol [Some ''a'', Some ''b''], IntCol [0, 1]])"

definition collision :: dataframe where
  "collision =
     \<lparr>nrows = 2,
      cols = [(''c_b'', IntCol [1, 2]), (''c'', ObjCol [Some ''a'', Some ''b'']),
              (''y'', IntCol [0, 1])]\<rparr>"

text \<open>The kidney frame after the imputation.\<close>

definition kidney_filled :: dataframe where
  "kidney_filled =
     \<lparr>nrows = 3,
      cols = [(''id'', IntCol [0, 1, 2]), (''age'', FloatCol [Some 48, Some 55, Some 62]),
              (''classification'', ObjCol [Some ''ckd'', Some ''ckd'', Some ''notckd''])]\<rparr>"

text \<open>A frame whose text column holds a tabulation and a space, as in the kidney file.\<close>

definition spaced :: dataframe where
  "spaced =
     \<lparr>nrows = 3,
      cols = [(''id'', IntCol [0, 1, 2]),
              (''dm'', ObjCol [Some (CHR 0x09 # ''no''), Some '' yes'', None])]\<rparr>"

text \<open>
  A headerless file whose first record holds no integer: \<^verbatim>\<open>1.5,a\<close> followed by
  \<^verbatim>\<open>7,b\<close>.
\<close>

definition decimal_first_file :: csv_file where
  "decimal_first_file = Table [''1.5'', ''a''] 1 (\<lambda>na. [IntCol [7], ObjCol [Some ''b'']])"

definition decimal_first :: dataframe where
  "decimal_first = \<lparr>nrows = 1, cols = [(''1.5'', IntCol [7]), (''a'', ObjCol [Some ''b''])]\<rparr>"

text \<open>
  The file \<^verbatim>\<open>age,class\<close>, \<^verbatim>\<open>?,0\<close>, \<^verbatim>\<open>?,1\<close>: with the question mark among
  the tokens for missing values the first column is a float column of missing values only,
  otherwise it is a column of strings. And a file that ends after its header.
\<close>

definition unknown_age_file :: csv_file where
  "unknown_age_file =
     Table [''age'', ''class''] 2
       (\<lambda>na. if ''?'' \<in> set na then [FloatCol [None, None], IntCol [0, 1]]
             else [ObjCol [Some ''?'', Some ''?''], IntCol [0, 1]])"

definition header_only_file :: csv_file where
  "header_only_file = Table [''age'', ''class''] 0 (\<lambda>na. [ObjCol [], ObjCol []])"

text \<open>
  The float mean used in the examples is the exact mean: float64 arithmetic gives it for
  the whole numbers of the example columns that have a missing cell, and where no cell is
  missing the mean is not used beyond being finite.
\<close>

definition exact_mean :: "rat list \<Rightarrow> float64" where
  "exact_mean vs = Finite (sum_list vs / of_nat (length vs))"

text \<open>
  A stand-in for the numerical routine of a projection in the examples: the entries of the
  leading columns.
\<close>

fun leading :: "int \<Rightarrow> ndarray \<Rightarrow> error + (nat \<Rightarrow> nat \<Rightarrow> pyval)" where
  "leading n (Array1 xs) = Inl ValueError"
| "leading n (Array2 r c m) = Inr (\<lambda>i j. m ! i ! j)"


section \<open>Basic facts\<close>

lemma and_then_simps [simp]:
  "and_then (Inl e) f = Inl e"
  "and_then (Inr x) f = f x"
  by (simp_all add: and_then_def)

lemma and_then_Inr: "and_then m f = Inr y \<longleftrightarrow> (\<exists>x. m = Inr x \<and> f x = Inr y)"
  by (cases m) auto

lemma for_each_invariant:
  "for_each xs body s = Inr s' \<Longrightarrow> P s \<Longrightarrow>
   (\<And>x t t'. x \<in> set xs \<Longrightarrow> P t \<Longrightarrow> body x t = Inr t' \<Longrightarrow> P t') \<Longrightarrow> P s'"
proof (induction xs arbitrary: s)
  case Nil
  then show ?case by simp
next
  case (Cons x xs)
  from Cons.prems(1) obtain s1 where b: "body x s = Inr s1" and r: "for_each xs body s1 = Inr s'"
    by (auto simp: and_then_Inr)
  have p1: "P s1" using Cons.prems(3) [of x s s1] Cons.prems(2) b by simp
  show ?case
  proof (rule Cons.IH [OF r p1])
    fix y t t'
    assume "y \<in> set xs" "P t" "body y t = Inr t'"
    then show "P t'" using Cons.prems(3) [of y t t'] by simp
  qed
qed

lemma wf_df_member: "wf_df df \<Longrightarrow> (l, c) \<in> set (cols df) \<Longrightarrow> col_len c = nrows df"
  by (auto simp: wf_df_def list_all_iff)

lemma getitem_Series: "getitem df f = Inr (Series c) \<Longrightarrow> (f, c) \<in> set (cols df)"
proof -
  assume a: "getitem df f = Inr (Series c)"
  then have "filter (\<lambda>(l, c). l = f) (cols df) = [(f, c)]"
    by (auto simp: getitem_def split: list.splits prod.splits dest: filter_eq_ConsD)
  then have "(f, c) \<in> set (filter (\<lambda>(l, c). l = f) (cols df))" by simp
  then show ?thesis by simp
qed

lemma getitem_Frame:
  "getitem df f = Inr (Frame d) \<Longrightarrow> nrows d = nrows df \<and> cols d = filter (\<lambda>(l, c). l = f) (cols df)"
  by (auto simp: getitem_def split: list.splits prod.splits)

lemma drop_label_rows: "wf_df df \<Longrightarrow> drop_label df f = Inr df' \<Longrightarrow> nrows df' = nrows df \<and> wf_df df'"
  by (auto simp: drop_label_def wf_df_def list_all_iff split: if_splits)

lemma setitem_rows: "wf_df df \<Longrightarrow> col_len c = nrows df \<Longrightarrow> nrows (setitem df f c) = nrows df \<and> wf_df (setitem df f c)"
  by (auto simp: setitem_def wf_df_def list_all_iff split: if_splits)

lemma set_columns_rows: "wf_df df \<Longrightarrow> set_columns df header = Inr df' \<Longrightarrow> nrows df' = nrows df \<and> wf_df df'"
proof -
  assume w: "wf_df df" and s: "set_columns df header = Inr df'"
  then have c: "cols df' = zip header (map snd (cols df))" and n: "nrows df' = nrows df"
    by (auto simp: set_columns_def split: if_splits)
  have "col_len d = nrows df" if "(l, d) \<in> set (cols df')" for l d
  proof -
    from that c have "d \<in> set (map snd (cols df))" by (auto dest: set_zip_rightD)
    then obtain l' where "(l', d) \<in> set (cols df)" by auto
    with w show ?thesis by (rule wf_df_member)
  qed
  with n show ?thesis by (auto simp: wf_df_def list_all_iff)
qed

lemma str_replace_len: "str_replace c col = Inr col' \<Longrightarrow> col_len col' = col_len col"
  by (auto simp: str_replace_def split: column.splits)

lemma fill_column_len: "fill_column fmean col = Inr col' \<Longrightarrow> col_len col' = col_len col"
  by (cases col) (auto simp: and_then_Inr fillna_def)

lemma strip_feature_Inr:
  assumes "strip_feature c f df = Inr df'"
  shows "\<exists>col col'. getitem df f = Inr (Series col) \<and> str_replace c col = Inr col' \<and>
           df' = setitem df f col'"
proof -
  from assms obtain sel where g: "getitem df f = Inr sel"
    and r: "(case sel of Frame d \<Rightarrow> Inl AttributeError
             | Series col \<Rightarrow> and_then (str_replace c col) (\<lambda>col'. Inr (setitem df f col'))) = Inr df'"
    by (auto simp: strip_feature_def and_then_Inr)
  then show ?thesis by (cases sel) (auto simp: and_then_Inr)
qed

lemma fill_feature_Inr:
  assumes "fill_feature fmean f df = Inr df'"
  shows "\<exists>col col'. getitem df f = Inr (Series col) \<and> fill_column fmean col = Inr col' \<and>
           df' = setitem df f col'"
proof -
  from assms obtain sel where g: "getitem df f = Inr sel"
    and r: "(case sel of Frame d \<Rightarrow> Inl ValueError
             | Series col \<Rightarrow> and_then (fill_column fmean col) (\<lambda>col'. Inr (setitem df f col'))) = Inr df'"
    by (auto simp: fill_feature_def and_then_Inr)
  then show ?thesis by (cases sel) (auto simp: and_then_Inr)
qed

lemma encode_feature_Inr:
  assumes "encode_feature fstr f df = Inr df'"
  shows "\<exists>sel df2 l0 c0 rest. getitem df f = Inr sel \<and>
           get_dummies fstr sel f = (l0, c0) # rest \<and>
           drop_label (concat_columns df (get_dummies fstr sel f)) f = Inr df2 \<and>
           drop_label df2 l0 = Inr df'"
proof -
  from assms obtain sel df2 where g: "getitem df f = Inr sel"
    and d2: "drop_label (concat_columns df (get_dummies fstr sel f)) f = Inr df2"
    and r: "(case get_dummies fstr sel f of [] \<Rightarrow> Inl IndexError
             | (l0, c0) # rest \<Rightarrow> drop_label df2 l0) = Inr df'"
    by (auto simp: encode_feature_def and_then_Inr Let_def)
  then show ?thesis by (cases "get_dummies fstr sel f") auto
qed

lemma strip_feature_rows:
  assumes "wf_df df" "strip_feature c f df = Inr df'"
  shows "nrows df' = nrows df \<and> wf_df df'"
proof -
  from strip_feature_Inr [OF assms(2)] obtain col col' where g: "getitem df f = Inr (Series col)"
    and r: "str_replace c col = Inr col'" and d: "df' = setitem df f col'"
    by blast
  from g assms(1) have "col_len col = nrows df" by (blast dest: getitem_Series wf_df_member)
  with r have "col_len col' = nrows df" by (simp add: str_replace_len)
  with assms(1) d show ?thesis by (simp add: setitem_rows)
qed

lemma fill_feature_rows:
  assumes "wf_df df" "fill_feature fmean f df = Inr df'"
  shows "nrows df' = nrows df \<and> wf_df df'"
proof -
  from fill_feature_Inr [OF assms(2)] obtain col col' where g: "getitem df f = Inr (Series col)"
    and r: "fill_column fmean col = Inr col'" and d: "df' = setitem df f col'"
    by blast
  from g assms(1) have "col_len col = nrows df" by (blast dest: getitem_Series wf_df_member)
  with r have "col_len col' = nrows df" by (simp add: fill_column_len)
  with assms(1) d show ?thesis by (simp add: setitem_rows)
qed

lemma get_dummies_1d_len: "(l, d) \<in> set (get_dummies_1d fstr c p) \<Longrightarrow> col_len d = col_len c"
  by (cases c) (auto simp: indicator_def)

lemma get_dummies_len:
  assumes "wf_df df" "getitem df f = Inr sel" "(l, d) \<in> set (get_dummies fstr sel p)"
  shows "col_len d = nrows df"
proof (cases sel)
  case (Series c)
  with assms show ?thesis
    by (auto simp: get_dummies_def dest!: getitem_Series get_dummies_1d_len dest: wf_df_member)
next
  case (Frame fr)
  with assms(2) have c: "cols fr = filter (\<lambda>(l, c). l = f) (cols df)"
    using getitem_Frame by blast
  from assms(3) Frame c show ?thesis
    using assms(1) by (auto simp: get_dummies_def dest!: get_dummies_1d_len dest: wf_df_member)
qed

lemma concat_columns_rows:
  "wf_df df \<Longrightarrow> \<forall>(l, d) \<in> set extra. col_len d = nrows df \<Longrightarrow>
   nrows (concat_columns df extra) = nrows df \<and> wf_df (concat_columns df extra)"
  by (auto simp: concat_columns_def wf_df_def list_all_iff)

lemma encode_feature_rows:
  assumes "wf_df df" "encode_feature fstr f df = Inr df'"
  shows "nrows df' = nrows df \<and> wf_df df'"
proof -
  from encode_feature_Inr [OF assms(2)] obtain sel df2 l0 where
    sel: "getitem df f = Inr sel" and
    d2: "drop_label (concat_columns df (get_dummies fstr sel f)) f = Inr df2" and
    d3: "drop_label df2 l0 = Inr df'"
    by blast
  have c: "nrows (concat_columns df (get_dummies fstr sel f)) = nrows df \<and>
           wf_df (concat_columns df (get_dummies fstr sel f))"
    using assms(1) sel get_dummies_len by (intro concat_columns_rows) auto
  with d2 have "nrows df2 = nrows df \<and> wf_df df2" using drop_label_rows by metis
  with d3 show ?thesis using drop_label_rows by metis
qed

section \<open>The header detector\<close>

lemma alpha_not_space: "is_alpha c \<Longrightarrow> \<not> is_space c"
  by (auto simp: is_alpha_def is_space_def)

lemma alpha_not_digit: "is_alpha c \<Longrightarrow> \<not> is_digit c"
  by (auto simp: is_alpha_def is_digit_def)

lemma alpha_not_sign: "is_alpha c \<Longrightarrow> c \<noteq> CHR ''-'' \<and> c \<noteq> CHR ''+''"
  by (auto simp: is_alpha_def)

lemma digit_not_space: "is_digit c \<Longrightarrow> \<not> is_space c"
  by (auto simp: is_digit_def is_space_def)

lemma digit_not_sign: "is_digit c \<Longrightarrow> c \<noteq> CHR ''-'' \<and> c \<noteq> CHR ''+''"
  by (auto simp: is_digit_def)

lemma dropWhile_none: "\<forall>c \<in> set s. \<not> P c \<Longrightarrow> dropWhile P s = s"
  by (cases s) auto

lemma strip_no_space: "\<forall>c \<in> set s. \<not> is_space c \<Longrightarrow> strip s = s"
  by (simp add: strip_def dropWhile_none)

lemma py_int_alpha: "list_all is_alpha l \<Longrightarrow> py_int l = None"
proof -
  assume a: "list_all is_alpha l"
  then have "strip l = l"
    by (intro strip_no_space) (auto simp: list_all_iff alpha_not_space)
  with a show ?thesis
    by (cases l) (auto simp: py_int_def parse_unsigned_def alpha_not_digit alpha_not_sign)
qed

lemma parse_digits_all: "list_all is_digit cs \<Longrightarrow> \<exists>n. parse_digits acc cs = Some n"
  by (induction cs arbitrary: acc) auto

lemma py_int_digits: "l \<noteq> [] \<Longrightarrow> list_all is_digit l \<Longrightarrow> \<exists>v. py_int l = Some v"
proof -
  assume ne: "l \<noteq> []" and d: "list_all is_digit l"
  then have s: "strip l = l"
    by (intro strip_no_space) (auto simp: list_all_iff digit_not_space)
  from ne obtain c cs where l: "l = c # cs" by (cases l) auto
  with d have c: "is_digit c" and cs: "list_all is_digit cs" by auto
  from parse_digits_all [OF cs] obtain n where "parse_digits (digit_val c) cs = Some n" by blast
  with s l c show ?thesis
    by (simp add: py_int_def parse_unsigned_def digit_not_sign)
qed

lemma check_header_loop_eq:
  "check_header_loop fs i = (if \<exists>f \<in> set fs. py_int f \<noteq> None then i + 1 else i)"
  by (induction fs arbitrary: i) (auto split: option.splits)

lemma check_header_iff: "check_header df \<longleftrightarrow> (\<forall>f \<in> set (columns df). py_int f = None)"
  by (simp add: check_header_def check_header_loop_eq Let_def)

text \<open>
  C2. Labels that consist of letters only make \<open>check_header\<close> answer true; one label
  that consists of decimal digits only makes it answer false; in general it answers false
  exactly when \<^verbatim>\<open>int\<close> accepts some label.
\<close>

theorem check_header_decision:
  "((\<forall>l \<in> set (columns df). list_all is_alpha l) \<longrightarrow> check_header df) \<and>
   ((\<exists>l \<in> set (columns df). l \<noteq> [] \<and> list_all is_digit l) \<longrightarrow> \<not> check_header df) \<and>
   (check_header df \<longleftrightarrow> \<not> (\<exists>l \<in> set (columns df). py_int l \<noteq> None))"
proof (intro conjI impI)
  assume "\<forall>l \<in> set (columns df). list_all is_alpha l"
  then show "check_header df" by (simp add: check_header_iff py_int_alpha)
next
  assume "\<exists>l \<in> set (columns df). l \<noteq> [] \<and> list_all is_digit l"
  then obtain l where "l \<in> set (columns df)" "l \<noteq> []" "list_all is_digit l" by blast
  then show "\<not> check_header df" using py_int_digits [of l] by (auto simp: check_header_iff)
next
  show "check_header df \<longleftrightarrow> \<not> (\<exists>l \<in> set (columns df). py_int l \<noteq> None)"
    by (simp add: check_header_iff)
qed

theorem check_header_decision_witness:
  "list_all (list_all is_alpha) (columns kidney) \<and> check_header kidney \<and>
   (\<exists>l \<in> set (columns banknote). l \<noteq> [] \<and> list_all is_digit l) \<and> \<not> check_header banknote \<and>
   (\<exists>l \<in> set (columns banknote). py_int l \<noteq> None)"
proof -
  have a: "list_all (list_all is_alpha) (columns kidney)"
    by (simp add: kidney_def columns_def is_alpha_def)
  have d: "\<exists>l \<in> set (columns banknote). l \<noteq> [] \<and> list_all is_digit l"
    by (simp add: banknote_def columns_def is_digit_def)
  from a have "\<forall>l \<in> set (columns kidney). list_all is_alpha l"
    by (simp add: list_all_iff)
  with a d check_header_decision [of kidney] check_header_decision [of banknote]
  show ?thesis by blast
qed

subsection \<open>\<^verbatim>\<open>int(str(i))\<close> is \<open>i\<close>\<close>

lemma below_ten: "d < 10 \<Longrightarrow> d \<in> {0, 1, 2, 3, 4, 5, 6, 7, 8, 9::nat}"
  by auto

lemma digit_val_digit_char: "d < 10 \<Longrightarrow> digit_val (digit_char d) = d"
  by (drule below_ten) (auto simp: digit_val_def digit_char_def)

lemma is_digit_digit_char: "d < 10 \<Longrightarrow> is_digit (digit_char d)"
  by (drule below_ten) (auto simp: is_digit_def digit_char_def)

lemma str_nat_digits: "list_all is_digit (str_nat n) \<and> str_nat n \<noteq> []"
proof (induction n rule: str_nat.induct)
  case (1 n)
  show ?case
  proof (cases "n < 10")
    case True
    then show ?thesis by (subst str_nat.simps, subst str_nat.simps) (simp add: is_digit_digit_char)
  next
    case False
    with 1 show ?thesis
      by (subst str_nat.simps, subst (2) str_nat.simps) (simp add: is_digit_digit_char)
  qed
qed

lemma parse_digits_snoc:
  "list_all is_digit ds \<Longrightarrow> is_digit d \<Longrightarrow>
   parse_digits acc (ds @ [d]) = map_option (\<lambda>m. 10 * m + digit_val d) (parse_digits acc ds)"
  by (induction ds arbitrary: acc) auto

lemma parse_digits_str_nat: "parse_digits 0 (str_nat n) = Some n"
proof (induction n rule: str_nat.induct)
  case (1 n)
  show ?case
  proof (cases "n < 10")
    case True
    then show ?thesis
      by (subst str_nat.simps) (simp add: is_digit_digit_char digit_val_digit_char)
  next
    case False
    with 1 have ih: "parse_digits 0 (str_nat (n div 10)) = Some (n div 10)" by simp
    have "parse_digits 0 (str_nat (n div 10) @ [digit_char (n mod 10)])
            = Some (10 * (n div 10) + n mod 10)"
      using str_nat_digits [of "n div 10"]
      by (simp add: parse_digits_snoc is_digit_digit_char ih digit_val_digit_char)
    with False show ?thesis by (subst str_nat.simps) simp
  qed
qed

lemma parse_unsigned_digits:
  "s \<noteq> [] \<Longrightarrow> list_all is_digit s \<Longrightarrow> parse_unsigned s = parse_digits 0 s"
  by (cases s) (auto simp: parse_unsigned_def)

lemma parse_unsigned_str_nat: "parse_unsigned (str_nat n) = Some n"
  using str_nat_digits [of n] by (simp add: parse_unsigned_digits parse_digits_str_nat)

lemma strip_signed: "list_all is_digit s \<Longrightarrow> strip (CHR ''-'' # s) = CHR ''-'' # s"
proof -
  assume a: "list_all is_digit s"
  have "\<not> is_space CHR ''-''" by (simp add: is_space_def)
  with a show ?thesis by (intro strip_no_space) (auto simp: list_all_iff digit_not_space)
qed

lemma py_int_str_int: "py_int (str_int i) = Some i"
proof (cases "i < 0")
  case True
  have "strip (CHR ''-'' # str_nat (nat (- i))) = CHR ''-'' # str_nat (nat (- i))"
    using str_nat_digits by (intro strip_signed) simp
  with True show ?thesis by (simp add: py_int_def str_int_def parse_unsigned_str_nat)
next
  case False
  obtain c cs where e: "str_nat (nat i) = c # cs" using str_nat_digits [of "nat i"]
    by (cases "str_nat (nat i)") auto
  with str_nat_digits [of "nat i"] have c: "is_digit c" and all: "list_all is_digit (c # cs)" by auto
  then have "strip (c # cs) = c # cs"
    by (intro strip_no_space) (auto simp: list_all_iff digit_not_space)
  moreover have "parse_unsigned (c # cs) = Some (nat i)"
    using parse_unsigned_str_nat [of "nat i"] e by simp
  ultimately show ?thesis using False e c
    by (simp add: py_int_def str_int_def digit_not_sign)
qed

lemma inj_str_int: "inj str_int"
proof (rule injI)
  fix x y assume "str_int x = str_int y"
  then have "py_int (str_int x) = py_int (str_int y)" by simp
  then show "x = y" by (simp add: py_int_str_int)
qed

lemma inj_str_bool: "inj str_bool"
  by (auto simp: inj_def str_bool_def split: if_splits)

lemma str_nat_small: "n < 10 \<Longrightarrow> str_nat n = [digit_char n]"
  by (subst str_nat.simps) simp

lemma str_nat_large: "\<not> n < 10 \<Longrightarrow> str_nat n = str_nat (n div 10) @ [digit_char (n mod 10)]"
  by (subst str_nat.simps) simp

lemmas str_defs = str_whole_float_def str_int_def str_nat_small str_nat_large digit_char_def

section \<open>The example inputs\<close>

lemma read_kidney: "read_csv kidney_file na = Inr kidney"
  by (simp add: read_csv_def kidney_file_def kidney_def)

lemma read_banknote: "read_csv banknote_file na = Inr banknote"
  by (simp add: read_csv_def banknote_file_def banknote_def)

lemma check_kidney: "check_header kidney"
  by (simp add: check_header_iff kidney_def columns_def py_int_alpha is_alpha_def)

lemma py_int_zero: "py_int ''0'' \<noteq> None"
  using py_int_digits [of "''0''"] by (auto simp: is_digit_def)

lemma check_banknote: "\<not> check_header banknote"
  using py_int_zero by (simp add: check_header_iff banknote_def columns_def)

lemma width_banknote: "length (cols banknote) = 2"
  by (simp add: banknote_def)

lemma wf_kidney_file: "wf_file kidney_file na"
  by (simp add: wf_file_def kidney_file_def)

lemmas stage_defs =
  columns_def drop_label_def strip_chars_def strip_feature_def fill_feature_def
  encode_feature_def getitem_def setitem_def concat_columns_def set_columns_def split_def
  get_dummies_def indicator_def str_replace_def first_mode_def mode_def mean_def exact_mean_def
  round_half_even_def fillna_def dropna_def frame_to_numpy_def series_to_numpy_def to_numpy_def
  Let_def less_char_def less_eq_char_def upt_conv_Cons

lemma kidney_cleaning:
  "cleaning exact_mean str_whole_float kidney [''id''] [] [''classification'']
     = Inr (Cleaned (Array2 3 1 [[VFloat 48], [VFloat 55], [VFloat 62]])
         (Array1 [VBool False, VBool False, VBool True])
         [''age'', ''classification_notckd''])"
  by (simp add: cleaning_def kidney_def stage_defs)

lemma kidney_run:
  "preprocessing exact_mean str_whole_float kidney_file [] [''id''] [] [''classification''] []
     = Inr (Cleaned (Array2 3 1 [[VFloat 48], [VFloat 55], [VFloat 62]])
         (Array1 [VBool False, VBool False, VBool True])
         [''age'', ''classification_notckd''])"
  by (simp add: preprocessing_def read_kidney check_kidney kidney_cleaning)

lemma read_collision: "read_csv collision_file na = Inr collision"
  by (simp add: read_csv_def collision_file_def collision_def)

lemma check_collision: "check_header collision"
  by (simp add: check_header_iff collision_def columns_def py_int_def strip_def is_space_def
      parse_unsigned_def is_digit_def)

lemma collision_cleaning:
  "cleaning exact_mean str_whole_float collision [] [] [''c'']
     = Inr (Cleaned (Array2 2 1 [[VInt 0], [VInt 1]])
         (Array2 2 2 [[VInt 1, VBool False], [VInt 2, VBool True]])
         [''c_b'', ''y'', ''c_b''])"
  by (simp add: cleaning_def collision_def stage_defs)

section \<open>Settling the header\<close>

text \<open>
  C1, as stated, fails where the supplied header has another length than the frame has
  columns: the assignment raises and no header is assigned.
\<close>

theorem preprocessing_header_length_counterexample:
  "read_csv banknote_file [] = Inr banknote \<and> \<not> check_header banknote \<and>
   preprocessing exact_mean str_whole_float banknote_file [] [] [] [] [''variance'', ''skewness'', ''class'']
     = Inl ValueError"
  by (simp add: read_banknote check_banknote preprocessing_def set_columns_def width_banknote)

text \<open>
  C1, amended. When no header is detected and the header argument is empty,
  \<open>preprocessing\<close> returns the error string. When no header is detected and the argument
  has as many names as the frame has columns, these names become the column names and the
  cleaning runs on that frame; with another number of names the assignment raises
  \<^verbatim>\<open>ValueError\<close>. When a header is detected the loaded frame is cleaned as it is,
  whatever the header argument.
\<close>

theorem preprocessing_header:
  assumes "read_csv f missing_values = Inr df"
  shows
    "(\<not> check_header df \<and> header = [] \<longrightarrow>
        preprocessing fmean fstr f missing_values irrelevant_features chars categorical_features header
          = Inr (ErrorMessage ''Error: the dataset has no header, please enter the columns names'')) \<and>
     (\<not> check_header df \<and> header \<noteq> [] \<and> length header = length (cols df) \<longrightarrow>
        columns (df\<lparr>cols := zip header (map snd (cols df))\<rparr>) = header \<and>
        preprocessing fmean fstr f missing_values irrelevant_features chars categorical_features header
          = cleaning fmean fstr (df\<lparr>cols := zip header (map snd (cols df))\<rparr>)
              irrelevant_features chars categorical_features) \<and>
     (\<not> check_header df \<and> header \<noteq> [] \<and> length header \<noteq> length (cols df) \<longrightarrow>
        preprocessing fmean fstr f missing_values irrelevant_features chars categorical_features header
          = Inl ValueError) \<and>
     (check_header df \<longrightarrow>
        preprocessing fmean fstr f missing_values irrelevant_features chars categorical_features header
          = cleaning fmean fstr df irrelevant_features chars categorical_features)"
  using assms by (simp add: preprocessing_def set_columns_def no_header_message_def columns_def)

theorem preprocessing_header_witness:
  "read_csv banknote_file [] = Inr banknote \<and> \<not> check_header banknote \<and>
   preprocessing exact_mean str_whole_float banknote_file [] [] [] [] []
     = Inr (ErrorMessage ''Error: the dataset has no header, please enter the columns names'') \<and>
   preprocessing exact_mean str_whole_float banknote_file [] [] [] [] [''variance'', ''class'']
     = cleaning exact_mean str_whole_float (banknote\<lparr>cols := zip [''variance'', ''class''] (map snd (cols banknote))\<rparr>) [] [] [] \<and>
   preprocessing exact_mean str_whole_float banknote_file [] [] [] [] [''variance'']
     = Inl ValueError \<and>
   read_csv kidney_file [] = Inr kidney \<and> check_header kidney \<and>
   preprocessing exact_mean str_whole_float kidney_file [] [] [] [] [''variance'', ''class'']
     = cleaning exact_mean str_whole_float kidney [] [] []"
  using preprocessing_header [OF read_banknote, where header = "[]" and fstr = str_whole_float and fmean = exact_mean
        and irrelevant_features = "[]" and chars = "[]" and categorical_features = "[]"]
    preprocessing_header [OF read_banknote, where header = "[''variance'', ''class'']"
        and fstr = str_whole_float and fmean = exact_mean
        and irrelevant_features = "[]" and chars = "[]" and categorical_features = "[]"]
    preprocessing_header [OF read_banknote, where header = "[''variance'']"
        and fstr = str_whole_float and fmean = exact_mean
        and irrelevant_features = "[]" and chars = "[]" and categorical_features = "[]"]
    preprocessing_header [OF read_kidney, where header = "[''variance'', ''class'']"
        and fstr = str_whole_float and fmean = exact_mean
        and irrelevant_features = "[]" and chars = "[]" and categorical_features = "[]"]
    read_banknote check_banknote read_kidney check_kidney
  by (simp add: width_banknote)

section \<open>Rows are kept\<close>

lemma rows_kept_refl: "wf_df df \<Longrightarrow> rows_kept df df"
  by (simp add: rows_kept_def)

lemma read_csv_wf: "wf_file f na \<Longrightarrow> read_csv f na = Inr df \<Longrightarrow> wf_df df"
  by (auto simp: wf_file_def read_csv_def wf_df_def list_all_iff split: csv_file.splits
      dest!: set_zip_rightD)

lemma for_each_rows:
  assumes "rows_kept df s" "for_each xs body s = Inr s'"
    and step: "\<And>x t t'. wf_df t \<Longrightarrow> body x t = Inr t' \<Longrightarrow> nrows t' = nrows t \<and> wf_df t'"
  shows "rows_kept df s'"
  using assms(2,1)
proof (rule for_each_invariant)
  fix x t t'
  assume "rows_kept df t" "body x t = Inr t'"
  then show "rows_kept df t'" using step [of t x t'] by (simp add: rows_kept_def)
qed

lemma strip_chars_rows:
  assumes "rows_kept df s" "strip_chars names chars s = Inr s'"
  shows "rows_kept df s'"
proof -
  from assms(2) obtain feats where
    r: "for_each chars (\<lambda>c. for_each feats (strip_feature c)) s = Inr s'"
    by (auto simp: strip_chars_def and_then_Inr)
  have inner: "nrows t' = nrows t \<and> wf_df t'"
    if "wf_df t" "for_each feats (strip_feature c) t = Inr t'" for c t t'
  proof -
    have "rows_kept t t'"
      using rows_kept_refl [OF that(1)] that(2) by (rule for_each_rows) (rule strip_feature_rows)
    then show ?thesis by (simp add: rows_kept_def)
  qed
  show ?thesis using assms(1) r by (rule for_each_rows) (rule inner)
qed

lemma frame_to_numpy_len: "len (frame_to_numpy df) = nrows df"
  by (simp add: frame_to_numpy_def)

lemma cells_len: "length (cells c) = col_len c"
  by (cases c) auto

lemma split_rows:
  assumes "wf_df df" "split df = Inr (Cleaned data label names)"
  shows "len data = nrows df \<and> len label = nrows df"
proof -
  from assms(2) obtain sel rest where g: "getitem df (last (columns df)) = Inr sel"
    and d: "drop_label df (last (columns df)) = Inr rest"
    and data: "data = frame_to_numpy rest" and label: "label = to_numpy sel"
    by (auto simp: split_def Let_def and_then_Inr split: if_splits)
  from drop_label_rows [OF assms(1) d] data have 1: "len data = nrows df"
    by (simp add: frame_to_numpy_len)
  have 2: "len label = nrows df"
  proof (cases sel)
    case (Series c)
    with g assms(1) have "col_len c = nrows df" by (blast dest: getitem_Series wf_df_member)
    with Series label show ?thesis by (simp add: to_numpy_def series_to_numpy_def cells_len)
  next
    case (Frame d)
    with g label show ?thesis
      by (auto simp: to_numpy_def frame_to_numpy_len dest: getitem_Frame)
  qed
  from 1 2 show ?thesis by simp
qed

lemma cleaning_rows:
  assumes "wf_df df"
    "cleaning fmean fstr df irrelevant_features chars categorical_features = Inr (Cleaned data label names)"
  shows "len data = nrows df \<and> len label = nrows df"
proof -
  from assms(2) obtain d1 d2 d3 d4 where
    1: "for_each irrelevant_features (\<lambda>f df. drop_label df f) df = Inr d1" and
    2: "strip_chars (columns d1) chars d1 = Inr d2" and
    3: "for_each (columns d1) (fill_feature fmean) d2 = Inr d3" and
    4: "for_each categorical_features (encode_feature fstr) d3 = Inr d4" and
    5: "split d4 = Inr (Cleaned data label names)"
    by (auto simp: cleaning_def Let_def and_then_Inr)
  have "rows_kept df d1"
    using rows_kept_refl [OF assms(1)] 1 by (rule for_each_rows) (rule drop_label_rows)
  then have "rows_kept df d2" using 2 by (rule strip_chars_rows)
  then have "rows_kept df d3" using 3 by (rule for_each_rows) (rule fill_feature_rows)
  then have "rows_kept df d4" using 4 by (rule for_each_rows) (rule encode_feature_rows)
  then show ?thesis using split_rows [OF _ 5] by (simp add: rows_kept_def)
qed


lemma frame_to_numpy_shaped: "well_shaped (frame_to_numpy df)"
  by (simp add: frame_to_numpy_def list_all_iff)

lemma to_numpy_shaped: "well_shaped (to_numpy sel)"
  by (cases sel) (simp_all add: to_numpy_def series_to_numpy_def frame_to_numpy_shaped)

lemma split_shaped:
  assumes "split df = Inr (Cleaned data label names)"
  shows "well_shaped data \<and> well_shaped label"
  using assms
  by (auto simp: split_def Let_def and_then_Inr frame_to_numpy_shaped to_numpy_shaped
      split: if_splits)

lemma cleaning_Inr_split:
  assumes "cleaning fmean fstr df irrelevant_features chars categorical_features = Inr r"
  shows "\<exists>d. split d = Inr r"
  using assms by (auto simp: cleaning_def Let_def and_then_Inr)

lemma cleaning_shaped:
  assumes "cleaning fmean fstr df irrelevant_features chars categorical_features
             = Inr (Cleaned data label names)"
  shows "well_shaped data \<and> well_shaped label"
  using cleaning_Inr_split [OF assms] split_shaped by blast

lemma preprocessing_Cleaned:
  assumes "read_csv f missing_values = Inr df"
    and "preprocessing fmean fstr f missing_values irrelevant_features chars categorical_features header
           = Inr (Cleaned data label names)"
  shows "\<exists>df'. (df' = df \<or> set_columns df header = Inr df') \<and>
           cleaning fmean fstr df' irrelevant_features chars categorical_features
             = Inr (Cleaned data label names)"
  using assms by (auto simp: preprocessing_def and_then_Inr split: if_splits)

text \<open>
  C7. When \<open>preprocessing\<close> returns a cleaned tuple, the feature matrix and the label array
  have the number of rows of the loaded frame, which dropping columns does not change: no
  later step adds or removes a row.
\<close>

theorem preprocessing_rows:
  assumes "wf_file f missing_values" "read_csv f missing_values = Inr df"
    and "preprocessing fmean fstr f missing_values irrelevant_features chars categorical_features header
           = Inr (Cleaned data label names)"
  shows "len data = nrows df \<and> len label = nrows df \<and> well_shaped data \<and> well_shaped label"
proof -
  from preprocessing_Cleaned [OF assms(2,3)] obtain df' where
    h: "df' = df \<or> set_columns df header = Inr df'" and
    c: "cleaning fmean fstr df' irrelevant_features chars categorical_features
          = Inr (Cleaned data label names)"
    by blast
  have w: "wf_df df" using assms(1,2) by (rule read_csv_wf)
  with h have "nrows df' = nrows df \<and> wf_df df'" using set_columns_rows by blast
  with cleaning_rows [OF _ c] cleaning_shaped [OF c] show ?thesis by simp
qed

theorem preprocessing_rows_witness:
  "wf_file kidney_file [] \<and> read_csv kidney_file [] = Inr kidney \<and>
   preprocessing exact_mean str_whole_float kidney_file [] [''id''] [] [''classification''] []
     = Inr (Cleaned (Array2 3 1 [[VFloat 48], [VFloat 55], [VFloat 62]])
         (Array1 [VBool False, VBool False, VBool True])
         [''age'', ''classification_notckd'']) \<and>
   len (Array2 3 1 [[VFloat 48], [VFloat 55], [VFloat 62]]) = nrows kidney \<and>
   len (Array1 [VBool False, VBool False, VBool True]) = nrows kidney"
  using preprocessing_rows [OF wf_kidney_file read_kidney kidney_run]
    wf_kidney_file read_kidney kidney_run
  by simp

section \<open>The split into data and label\<close>

lemma count_list_distinct: "distinct xs \<Longrightarrow> count_list xs x = (if x \<in> set xs then 1 else 0)"
  by (induction xs) auto

lemma count_label_list:
  "length (filter (\<lambda>(l, c). l = f) cs) = count_list (map fst cs) f"
  by (induction cs) auto

lemma count_label: "length (filter (\<lambda>(l, c). l = f) (cols df)) = count_list (columns df) f"
  by (simp add: columns_def count_label_list)

lemma split_distinct:
  assumes "distinct (columns df)" "split df = Inr (Cleaned data label names)"
  shows "shape data = [nrows df, length names - 1] \<and> ndim label = 1 \<and> names = columns df"
proof -
  from assms(2) obtain sel rest where ne: "columns df \<noteq> []"
    and g: "getitem df (last (columns df)) = Inr sel"
    and d: "drop_label df (last (columns df)) = Inr rest"
    and data: "data = frame_to_numpy rest" and label: "label = to_numpy sel"
    and names: "names = columns df"
    by (auto simp: split_def Let_def and_then_Inr split: if_splits)
  let ?l = "last (columns df)"
  have one: "length (filter (\<lambda>(l, c). l = ?l) (cols df)) = 1"
    using assms(1) ne by (simp add: count_label count_list_distinct)
  have "\<exists>c. sel = Series c"
    using g one by (auto simp: getitem_def split: list.splits prod.splits)
  then have 1: "ndim label = 1" using label by (auto simp: to_numpy_def series_to_numpy_def)
  have "length (cols rest) = length (cols df) - 1"
  proof -
    from d have "cols rest = filter (\<lambda>(l, c). l \<noteq> ?l) (cols df)"
      by (auto simp: drop_label_def split: if_splits)
    moreover have "length (filter (\<lambda>(l, c). l \<noteq> ?l) (cols df)) + length (filter (\<lambda>(l, c). l = ?l) (cols df)) = length (cols df)"
      using sum_length_filter_compl [of "\<lambda>(l, c). l = ?l" "cols df"]
      by (simp add: case_prod_unfold add.commute)
    ultimately show ?thesis using one by simp
  qed
  moreover from d have "nrows rest = nrows df" by (auto simp: drop_label_def split: if_splits)
  ultimately have "shape data = [nrows df, length names - 1]"
    using data names by (simp add: frame_to_numpy_def columns_def)
  with 1 names show ?thesis by simp
qed

text \<open>
  C5 on the file whose column \<open>c_b\<close> shares its label with the indicator column kept for
  the categorical column \<open>c\<close>: three names are returned, the feature matrix has one column
  and the label array has two dimensions, where the claim and the docstring (a label
  array of dimension 1, the names of the features and the label) ask for two feature
  columns.
\<close>

theorem preprocessing_label_collision:
  "preprocessing exact_mean str_whole_float collision_file [] [] [] [''c''] []
     = Inr (Cleaned (Array2 2 1 [[VInt 0], [VInt 1]])
         (Array2 2 2 [[VInt 1, VBool False], [VInt 2, VBool True]])
         [''c_b'', ''y'', ''c_b'']) \<and>
   shape (Array2 2 1 [[VInt 0], [VInt 1]]) = [2, 1] \<and>
   length [''c_b'', ''y'', ''c_b''] - 1 = (2::nat) \<and>
   ndim (Array2 2 2 [[VInt 1, VBool False], [VInt 2, VBool True]]) = 2"
  by (simp add: preprocessing_def read_collision check_collision collision_cleaning)

section \<open>Filling missing values\<close>

subsection \<open>The mode\<close>

lemma fold_max_ge: "(a::nat) \<le> fold max xs a"
  by (induction xs arbitrary: a) (auto intro: order_trans [OF max.cobounded2])

lemma fold_max_upper: "x \<in> set xs \<Longrightarrow> (x::nat) \<le> fold max xs a"
proof (induction xs arbitrary: a)
  case Nil
  then show ?case by simp
next
  case (Cons y ys)
  show ?case
  proof (cases "x = y")
    case True
    have "y \<le> max y a" by simp
    also have "\<dots> \<le> fold max ys (max y a)" by (rule fold_max_ge)
    finally show ?thesis using True by simp
  next
    case False
    with Cons show ?thesis by simp
  qed
qed

lemma fold_max_mem: "fold max xs (a::nat) = a \<or> fold max xs a \<in> set xs"
proof (induction xs arbitrary: a)
  case Nil
  then show ?case by simp
next
  case (Cons y ys)
  from Cons [of "max y a"] show ?case by (auto simp: max_def split: if_splits)
qed


lemma mode_Nil_iff: "mode vs = [] \<longleftrightarrow> vs = []"
proof
  assume e: "mode vs = []"
  show "vs = []"
  proof (rule ccontr)
    assume ne: "vs \<noteq> []"
    let ?m = "fold max (map (count_list vs) vs) 0"
    from ne obtain x where x: "x \<in> set vs" by (cases vs) auto
    then have "0 < count_list vs x" using count_list_0_iff [of vs x] by simp
    moreover have "count_list vs x \<le> ?m" using x by (intro fold_max_upper) simp
    ultimately have "?m \<noteq> 0" by simp
    with fold_max_mem [of "map (count_list vs) vs" 0] obtain v
      where "v \<in> set vs" "count_list vs v = ?m" by auto
    then have "v \<in> set (mode vs)" by (simp add: mode_def Let_def)
    with e show False by simp
  qed
next
  assume "vs = []"
  then show "mode vs = []" by (simp add: mode_def)
qed


lemma first_mode_Inl: "first_mode vs = Inl e \<longleftrightarrow> vs = [] \<and> e = KeyError"
  using mode_Nil_iff [of vs] by (auto simp: first_mode_def split: list.splits)

subsection \<open>Rounding\<close>


lemma mean_empty: "dropna xs = [] \<Longrightarrow> mean fmean xs = NotANumber"
  by (simp add: mean_def)


lemma py_round_Inr: "py_round x = Inr i \<longleftrightarrow> (\<exists>m. x = Finite m \<and> i = round_half_even m)"
  by (cases x) auto

lemma dropna_Nil_iff: "dropna xs = [] \<longleftrightarrow> (\<forall>x \<in> set xs. x = None)"
  by (induction xs) (auto simp: dropna_def split: option.splits)

lemma set_dropna: "set (dropna xs) = {v. Some v \<in> set xs}"
  by (induction xs) (auto simp: dropna_def split: option.splits)

subsection \<open>One column\<close>

lemma fill_column_Float:
  assumes "fill_column fmean (FloatCol xs) = Inr c"
  shows "\<exists>m. mean fmean xs = Finite m \<and> c = FloatCol (fillna (of_int (round_half_even m)) xs)"
  using assms by (auto simp: and_then_Inr py_round_Inr)

lemma fill_column_Obj:
  assumes "fill_column fmean (ObjCol xs) = Inr c"
  shows "\<exists>v. first_mode (dropna xs) = Inr v \<and> c = ObjCol (fillna v xs)"
  using assms by (auto simp: and_then_Inr)


lemma fillna_nth:
  "i < length xs \<Longrightarrow> fillna v xs ! i = (case xs ! i of None \<Rightarrow> Some v | Some y \<Rightarrow> Some y)"
  by (simp add: fillna_def)





lemma no_missing_Int [simp]: "no_missing (IntCol xs)"
  by (auto simp: no_missing_def)

lemma no_missing_Bool [simp]: "no_missing (BoolCol xs)"
  by (auto simp: no_missing_def)


subsection \<open>The loop over the columns\<close>

lemma getitem_Series_unique:
  assumes "getitem df f = Inr (Series col)"
  shows "filter (\<lambda>(l, c). l = f) (cols df) = [(f, col)]"
proof -
  from assms obtain l where e: "filter (\<lambda>(l, c). l = f) (cols df) = [(l, col)]"
    by (auto simp: getitem_def split: list.splits prod.splits)
  then have "(l, col) \<in> set (filter (\<lambda>(l, c). l = f) (cols df))" by simp
  then have "l = f" by simp
  with e show ?thesis by simp
qed

lemma getitem_Series_count:
  "getitem df f = Inr (Series col) \<Longrightarrow> count_list (columns df) f = 1"
  using count_label [of f df] by (simp add: getitem_Series_unique)

lemma getitem_Series_only:
  assumes "getitem df f = Inr (Series col)" "(f, c) \<in> set (cols df)"
  shows "c = col"
proof -
  from assms(2) have "(f, c) \<in> set (filter (\<lambda>(l, c). l = f) (cols df))" by simp
  with getitem_Series_unique [OF assms(1)] show ?thesis by simp
qed










subsection \<open>No missing value is left\<close>























section \<open>Removing characters\<close>

subsection \<open>Selecting from a frame with distinct labels\<close>

lemma filter_label_distinct:
  "distinct (map fst ps) \<Longrightarrow> (f, col) \<in> set ps \<Longrightarrow> filter (\<lambda>(l, c). l = f) ps = [(f, col)]"
proof (induction ps)
  case Nil
  then show ?case by simp
next
  case (Cons p ps)
  show ?case
  proof (cases "p = (f, col)")
    case True
    with Cons.prems(1) have "f \<notin> fst ` set ps" by simp
    then have "filter (\<lambda>(l, c). l = f) ps = []" by (auto simp: filter_empty_conv image_iff)
    with True show ?thesis by simp
  next
    case False
    with Cons.prems have m: "(f, col) \<in> set ps" and d: "distinct (map fst ps)" by auto
    from m Cons.prems(1) have "fst p \<noteq> f" by (auto simp: image_iff)
    with Cons.IH [OF d m] show ?thesis by (cases p) simp
  qed
qed

lemma getitem_distinct:
  "distinct (columns df) \<Longrightarrow> (f, col) \<in> set (cols df) \<Longrightarrow> getitem df f = Inr (Series col)"
  by (simp add: getitem_def columns_def filter_label_distinct)

subsection \<open>The string features\<close>

lemma str_features_sub:
  assumes "distinct (columns df)" "set ps \<subseteq> set (cols df)"
  shows "str_features (map fst ps) df
           = Inr (map fst (filter (\<lambda>(l, c). dtypes c = Object) ps))"
  using assms(2)
proof (induction ps)
  case Nil
  then show ?case by simp
next
  case (Cons p ps)
  obtain f col where p: "p = (f, col)" by (cases p)
  with Cons.prems have "getitem df f = Inr (Series col)"
    using assms(1) by (intro getitem_distinct) auto
  with Cons p show ?case by simp
qed

lemma str_features_distinct:
  "distinct (columns df) \<Longrightarrow> str_features (columns df) df = Inr (obj_labels df)"
  using str_features_sub [of df "cols df"] by (simp add: columns_def obj_labels_def)

lemma str_features_Inr_distinct:
  assumes "str_features ns df = Inr feats"
  shows "\<forall>f \<in> set ns. count_list (columns df) f = 1"
  using assms
proof (induction ns arbitrary: feats)
  case Nil
  then show ?case by simp
next
  case (Cons f ns)
  from Cons.prems obtain sel where g: "getitem df f = Inr sel"
    and r: "(case sel of Frame d \<Rightarrow> Inl ValueError
             | Series c \<Rightarrow> and_then (str_features ns df) (\<lambda>rest.
                 Inr (if dtypes c = Object then f # rest else rest))) = Inr feats"
    by (auto simp: and_then_Inr)
  then obtain c rest where s: "sel = Series c" and t: "str_features ns df = Inr rest"
    by (cases sel) (auto simp: and_then_Inr)
  from g s have "count_list (columns df) f = 1" by (simp add: getitem_Series_count)
  with Cons.IH [OF t] show ?case by simp
qed

subsection \<open>The two loops\<close>

lemma replace_col_dtypes [simp]: "dtypes (replace_col c col) = dtypes col"
  by (cases col) (simp_all add: replace_col_def)

lemma replace_in_columns [simp]: "columns (replace_in S c df) = columns df"
  by (auto simp: replace_in_def columns_def)

lemma replace_all_columns [simp]: "columns (replace_all_cols c df) = columns df"
  by (auto simp: replace_all_cols_def columns_def)

lemma replace_all_obj_labels [simp]: "obj_labels (replace_all_cols c df) = obj_labels df"
  by (simp add: obj_labels_def replace_all_cols_def filter_map comp_def case_prod_unfold)

lemma strip_feature_distinct:
  assumes "distinct (columns df)" "(f, ObjCol xs) \<in> set (cols df)"
  shows "strip_feature c f df = Inr (replace_in {f} c df)"
proof -
  define col' where "col' = replace_col c (ObjCol xs)"
  from assms have g: "getitem df f = Inr (Series (ObjCol xs))" by (rule getitem_distinct)
  from assms(2) have m: "f \<in> set (columns df)" by (auto simp: columns_def intro: rev_image_eqI)
  have sr: "str_replace c (ObjCol xs) = Inr col'"
    by (simp add: str_replace_def replace_col_def col'_def)
  have 1: "strip_feature c f df = Inr (setitem df f col')"
    by (simp add: strip_feature_def g sr)
  have "(if l = f then (l, col') else (l, col))
          = (if l \<in> {f} then (l, replace_col c col) else (l, col))"
    if "(l, col) \<in> set (cols df)" for l col
    using that g by (auto simp: col'_def dest: getitem_Series_only)
  then have "map (\<lambda>(l, c'). if l = f then (l, col') else (l, c')) (cols df)
      = map (\<lambda>(l, col). if l \<in> {f} then (l, replace_col c col) else (l, col)) (cols df)"
    by (intro map_cong) auto
  then have "setitem df f col' = replace_in {f} c df"
    using m by (simp add: setitem_def replace_in_def)
  with 1 show ?thesis by simp
qed

lemma replace_in_twice:
  assumes "f \<notin> S"
  shows "replace_in S c (replace_in {f} c df) = replace_in (insert f S) c df"
proof -
  have "((\<lambda>(l, col). if l \<in> S then (l, replace_col c col) else (l, col)) \<circ>
         (\<lambda>(l, col). if l \<in> {f} then (l, replace_col c col) else (l, col))) p
      = (\<lambda>(l, col). if l \<in> insert f S then (l, replace_col c col) else (l, col)) p" for p
    using assms by (cases p) auto
  then have "map ((\<lambda>(l, col). if l \<in> S then (l, replace_col c col) else (l, col)) \<circ>
         (\<lambda>(l, col). if l \<in> {f} then (l, replace_col c col) else (l, col))) (cols df)
      = map (\<lambda>(l, col). if l \<in> insert f S then (l, replace_col c col) else (l, col)) (cols df)"
    by (intro map_cong) auto
  then show ?thesis by (simp add: replace_in_def del: insert_iff singleton_iff)
qed

lemma inner_loop:
  assumes "distinct (columns df)" "distinct fs"
    "\<forall>f \<in> set fs. \<exists>xs. (f, ObjCol xs) \<in> set (cols df)"
  shows "for_each fs (strip_feature c) df = Inr (replace_in (set fs) c df)"
  using assms
proof (induction fs arbitrary: df)
  case Nil
  then show ?case by (simp add: replace_in_def)
next
  case (Cons f fs)
  from Cons.prems(3) obtain xs where x: "(f, ObjCol xs) \<in> set (cols df)" by auto
  from Cons.prems(2) have nf: "f \<notin> set fs" and dfs: "distinct fs" by auto
  let ?d1 = "replace_in {f} c df"
  have 1: "strip_feature c f df = Inr ?d1"
    using Cons.prems(1) x by (rule strip_feature_distinct)
  have d1: "distinct (columns ?d1)" using Cons.prems(1) by simp
  have o1: "\<forall>g \<in> set fs. \<exists>ys. (g, ObjCol ys) \<in> set (cols ?d1)"
  proof
    fix g assume g: "g \<in> set fs"
    with Cons.prems(3) obtain ys where "(g, ObjCol ys) \<in> set (cols df)" by auto
    moreover from g nf have "g \<noteq> f" by auto
    ultimately have "(g, ObjCol ys) \<in> set (cols ?d1)"
      by (auto simp: replace_in_def image_iff intro!: bexI [of _ "(g, ObjCol ys)"])
    then show "\<exists>ys. (g, ObjCol ys) \<in> set (cols ?d1)" by blast
  qed
  from Cons.IH [OF d1 dfs o1] 1 nf show ?case by (simp add: replace_in_twice)
qed

lemma obj_labels_member:
  "f \<in> set (obj_labels df) \<longleftrightarrow> (\<exists>xs. (f, ObjCol xs) \<in> set (cols df))"
proof
  assume "f \<in> set (obj_labels df)"
  then obtain col where "(f, col) \<in> set (cols df)" "dtypes col = Object"
    by (auto simp: obj_labels_def)
  then show "\<exists>xs. (f, ObjCol xs) \<in> set (cols df)" by (cases col) auto
next
  assume "\<exists>xs. (f, ObjCol xs) \<in> set (cols df)"
  then show "f \<in> set (obj_labels df)" by (auto simp: obj_labels_def image_iff intro!: bexI)
qed

lemma replace_in_obj_labels: "replace_in (set (obj_labels df)) c df = replace_all_cols c df"
proof -
  have "(if l \<in> set (obj_labels df) then (l, replace_col c col) else (l, col))
          = (l, replace_col c col)" if "(l, col) \<in> set (cols df)" for l col
  proof (cases col)
    case (ObjCol xs)
    with that have "l \<in> set (obj_labels df)" by (auto simp: obj_labels_member)
    then show ?thesis by simp
  qed (simp_all add: replace_col_def)
  then have "map (\<lambda>(l, col). if l \<in> set (obj_labels df) then (l, replace_col c col) else (l, col))
        (cols df) = map (\<lambda>(l, col). (l, replace_col c col)) (cols df)"
    by (intro map_cong) auto
  then show ?thesis by (simp add: replace_in_def replace_all_cols_def)
qed

lemma distinct_obj_labels: "distinct (columns df) \<Longrightarrow> distinct (obj_labels df)"
  by (simp add: columns_def obj_labels_def distinct_map_filter)

lemma inner_loop_all:
  assumes "distinct (columns df)"
  shows "for_each (obj_labels df) (strip_feature c) df = Inr (replace_all_cols c df)"
  using inner_loop [OF assms distinct_obj_labels [OF assms], of c]
  by (simp add: obj_labels_member replace_in_obj_labels)

lemma outer_loop:
  assumes "distinct (columns df)" "feats = obj_labels df"
  shows "for_each chars (\<lambda>c. for_each feats (strip_feature c)) df
           = Inr (fold replace_all_cols chars df)"
  using assms
proof (induction chars arbitrary: df)
  case Nil
  then show ?case by simp
next
  case (Cons c chars)
  from Cons.prems have 1: "for_each feats (strip_feature c) df = Inr (replace_all_cols c df)"
    by (simp add: inner_loop_all)
  have "for_each chars (\<lambda>c. for_each feats (strip_feature c)) (replace_all_cols c df)
          = Inr (fold replace_all_cols chars (replace_all_cols c df))"
    using Cons.prems by (intro Cons.IH) simp_all
  with 1 show ?case by simp
qed

lemma strip_chars_distinct:
  assumes "distinct (columns df)"
  shows "strip_chars (columns df) chars df = Inr (fold replace_all_cols chars df)"
  using assms by (simp add: strip_chars_def str_features_distinct outer_loop)

lemma cols_fold_replace:
  "cols (fold replace_all_cols chars df)
     = map (\<lambda>(l, col). (l, fold replace_col chars col)) (cols df)"
  by (induction chars arbitrary: df) (simp_all add: replace_all_cols_def comp_def case_prod_unfold)

lemma fold_replace_col_Obj:
  "fold replace_col chars (ObjCol xs)
     = ObjCol (map (map_option (\<lambda>s. fold py_replace chars s)) xs)"
proof (induction chars arbitrary: xs)
  case Nil
  then show ?case by (simp add: option.map_ident)
next
  case (Cons c chars)
  then show ?case by (simp add: replace_col_def option.map_comp comp_def)
qed

lemma fold_replace_col_other: "dtypes col \<noteq> Object \<Longrightarrow> fold replace_col chars col = col"
  by (induction chars) (cases col; simp add: replace_col_def)+

subsection \<open>The replacement in one string\<close>

lemma py_replace_empty: "py_replace [] s = s"
  by (induction s) auto

lemma py_replace_char: "py_replace [x] s = filter (\<lambda>y. y \<noteq> x) s"
  by (induction s) auto

lemma occurs_at_Suc: "occurs_at c (x # xs) (Suc i) = occurs_at c xs i"
  by (simp add: occurs_at_def)

lemma occurs_at_nonempty: "occurs_at c s i \<Longrightarrow> s \<noteq> []"
  by (auto simp: occurs_at_def)

lemma py_replace_none: "(\<forall>i < length s. \<not> occurs_at c s i) \<Longrightarrow> py_replace c s = s"
proof (induction s)
  case Nil
  then show ?case by simp
next
  case (Cons x xs)
  from Cons.prems have 0: "\<not> occurs_at c (x # xs) 0" by auto
  have "\<forall>i < length xs. \<not> occurs_at c xs i"
  proof (intro allI impI)
    fix i assume "i < length xs"
    with Cons.prems have "\<not> occurs_at c (x # xs) (Suc i)" by auto
    then show "\<not> occurs_at c xs i" by (simp add: occurs_at_Suc)
  qed
  with Cons.IH have "py_replace c xs = xs" by simp
  with 0 show ?case by (auto simp: occurs_at_def)
qed

lemma py_replace_first:
  "occurs_at c s n \<Longrightarrow> (\<forall>i < n. \<not> occurs_at c s i) \<Longrightarrow>
   py_replace c s = take n s @ py_replace c (drop (n + length c) s)"
proof (induction n arbitrary: s)
  case 0
  then obtain x xs where s: "s = x # xs" by (cases s) (auto dest: occurs_at_nonempty)
  with 0 show ?case by (simp add: occurs_at_def)
next
  case (Suc n)
  then obtain x xs where s: "s = x # xs" by (cases s) (auto dest: occurs_at_nonempty)
  from Suc.prems(2) have 0: "\<not> occurs_at c s 0" by simp
  from Suc.prems(1) s have 1: "occurs_at c xs n" by (simp add: occurs_at_Suc)
  have 2: "\<forall>i < n. \<not> occurs_at c xs i"
  proof (intro allI impI)
    fix i assume "i < n"
    with Suc.prems(2) have "\<not> occurs_at c s (Suc i)" by simp
    with s show "\<not> occurs_at c xs i" by (simp add: occurs_at_Suc)
  qed
  from Suc.IH [OF 1 2] 0 s show ?case by (auto simp: occurs_at_def)
qed

subsection \<open>The whole step\<close>

lemma fold_replace_all:
  "fold replace_all_cols chars df
     = df\<lparr>cols := map (\<lambda>(l, col). (l, fold replace_col chars col)) (cols df)\<rparr>"
  by (induction chars arbitrary: df) (simp_all add: replace_all_cols_def comp_def case_prod_unfold)

lemma fold_replace_col_cases:
  "fold replace_col chars col =
     (case col of
        ObjCol xs \<Rightarrow> ObjCol (map (map_option (\<lambda>s. fold py_replace chars s)) xs)
      | _ \<Rightarrow> col)"
  by (cases col) (simp_all add: fold_replace_col_Obj fold_replace_col_other)

text \<open>
  C8. On a frame with distinct labels the stripping step returns the frame in which every
  value of every object column has gone through \<^verbatim>\<open>replace(c, '')\<close> for each listed
  \<open>c\<close> in turn, a missing value staying missing and the other columns staying as they
  are. The replacement compares characters only: it deletes the first occurrence of \<open>c\<close>
  and goes on behind it, it leaves a string without an occurrence as it is, and for a
  single character it deletes every occurrence of that character.
\<close>

theorem strip_chars_literal:
  "(distinct (columns df) \<longrightarrow>
      strip_chars (columns df) chars df
        = Inr (df\<lparr>cols := map (\<lambda>(l, col).
                 (l, case col of
                       ObjCol xs \<Rightarrow> ObjCol (map (map_option (\<lambda>s. fold py_replace chars s)) xs)
                     | _ \<Rightarrow> col)) (cols df)\<rparr>)) \<and>
   (occurs_at c s n \<and> (\<forall>i < n. \<not> occurs_at c s i) \<longrightarrow>
      py_replace c s = take n s @ py_replace c (drop (n + length c) s)) \<and>
   ((\<forall>i < length s. \<not> occurs_at c s i) \<longrightarrow> py_replace c s = s) \<and>
   py_replace [x] s = filter (\<lambda>y. y \<noteq> x) s"
proof (intro conjI impI)
  assume "distinct (columns df)"
  then show "strip_chars (columns df) chars df
        = Inr (df\<lparr>cols := map (\<lambda>(l, col).
                 (l, case col of
                       ObjCol xs \<Rightarrow> ObjCol (map (map_option (\<lambda>s. fold py_replace chars s)) xs)
                     | _ \<Rightarrow> col)) (cols df)\<rparr>)"
    by (simp add: strip_chars_distinct fold_replace_all fold_replace_col_cases)
next
  assume "occurs_at c s n \<and> (\<forall>i < n. \<not> occurs_at c s i)"
  then show "py_replace c s = take n s @ py_replace c (drop (n + length c) s)"
    using py_replace_first by blast
next
  assume "\<forall>i < length s. \<not> occurs_at c s i"
  then show "py_replace c s = s" by (rule py_replace_none)
next
  show "py_replace [x] s = filter (\<lambda>y. y \<noteq> x) s" by (rule py_replace_char)
qed

lemma spaced_distinct: "distinct (columns spaced)"
  by (simp add: spaced_def columns_def)

lemma occurs_example: "occurs_at ''.*'' ''a.*b.*'' 1 \<and> \<not> occurs_at ''.*'' ''a.*b.*'' 0"
  by (simp add: occurs_at_def)

lemma no_occurrence_example: "\<not> occurs_at ''.*'' ''ab'' 0 \<and> \<not> occurs_at ''.*'' ''ab'' 1"
  by (simp add: occurs_at_def)

theorem strip_chars_literal_witness:
  "distinct (columns spaced) \<and>
   strip_chars (columns spaced) [[CHR 0x09], '' ''] spaced
     = Inr \<lparr>nrows = 3,
            cols = [(''id'', IntCol [0, 1, 2]), (''dm'', ObjCol [Some ''no'', Some ''yes'', None])]\<rparr> \<and>
   occurs_at ''.*'' ''a.*b.*'' 1 \<and> \<not> occurs_at ''.*'' ''a.*b.*'' 0 \<and>
   py_replace ''.*'' ''a.*b.*'' = ''a'' @ py_replace ''.*'' ''b.*'' \<and>
   \<not> occurs_at ''.*'' ''ab'' 0 \<and> \<not> occurs_at ''.*'' ''ab'' 1 \<and>
   py_replace ''.*'' ''ab'' = ''ab''"
proof -
  have a: "\<forall>i < 1. \<not> occurs_at ''.*'' ''a.*b.*'' i" using occurs_example by simp
  have b: "\<forall>i < length ''ab''. \<not> occurs_at ''.*'' ''ab'' i"
    using no_occurrence_example by (simp add: less_Suc_eq)
  from strip_chars_literal [where df = spaced and chars = "[[CHR 0x09], '' '']"
      and c = "''.*''" and s = "''a.*b.*''" and n = 1] spaced_distinct occurs_example a
  have 1: "strip_chars (columns spaced) [[CHR 0x09], '' ''] spaced
     = Inr \<lparr>nrows = 3,
            cols = [(''id'', IntCol [0, 1, 2]), (''dm'', ObjCol [Some ''no'', Some ''yes'', None])]\<rparr>"
    and 2: "py_replace ''.*'' ''a.*b.*'' = ''a'' @ py_replace ''.*'' ''b.*''"
    by (simp_all add: spaced_def)
  from strip_chars_literal [where c = "''.*''" and s = "''ab''"] b
  have 3: "py_replace ''.*'' ''ab'' = ''ab''" by blast
  from 1 2 3 spaced_distinct occurs_example no_occurrence_example show ?thesis by blast
qed

section \<open>Encoding a categorical feature\<close>

lemma length_levels: "length (sort (remdups vs)) = card (set vs)"
  by (simp add: length_remdups_card_conv)

lemma length_levels_raw: "length (remdups vs) = card (set vs)"
  by (simp add: length_remdups_card_conv)

lemma present_Float: "set (cells (FloatCol xs)) - {VNan} = VFloat ` set (dropna xs)"
proof -
  have "float_val x \<noteq> VNan \<longleftrightarrow> (\<exists>v. x = Some v)" for x by (cases x) auto
  moreover have "float_val (Some v) = VFloat v" for v by simp
  ultimately show ?thesis by (auto simp: set_dropna image_iff) (metis float_val.simps(2))+
qed

lemma present_Obj: "set (cells (ObjCol xs)) - {VNan} = VStr ` set (dropna xs)"
proof -
  have "obj_val x \<noteq> VNan \<longleftrightarrow> (\<exists>v. x = Some v)" for x by (cases x) auto
  then show ?thesis by (auto simp: set_dropna image_iff) (metis obj_val.simps(2))+
qed

lemma nunique_levels: "length (get_dummies_1d fstr c p) = nunique c"
proof (cases c)
  case (FloatCol xs)
  have "card (VFloat ` set (dropna xs)) = card (set (dropna xs))"
    by (intro card_image) (simp add: inj_on_def)
  with FloatCol show ?thesis by (simp add: nunique_def present_Float length_levels_raw del: cells.simps)
next
  case (IntCol xs)
  have "card (VInt ` set xs) = card (set xs)" by (intro card_image) (simp add: inj_on_def)
  moreover have "set (cells (IntCol xs)) - {VNan} = VInt ` set xs" by auto
  ultimately show ?thesis using IntCol by (simp add: nunique_def length_levels_raw del: cells.simps)
next
  case (BoolCol xs)
  have "card (VBool ` set xs) = card (set xs)" by (intro card_image) (simp add: inj_on_def)
  moreover have "set (cells (BoolCol xs)) - {VNan} = VBool ` set xs" by auto
  ultimately show ?thesis using BoolCol by (simp add: nunique_def length_levels_raw del: cells.simps)
next
  case (ObjCol xs)
  have "card (VStr ` set (dropna xs)) = card (set (dropna xs))"
    by (intro card_image) (simp add: inj_on_def)
  with ObjCol show ?thesis by (simp add: nunique_def present_Obj length_levels_raw del: cells.simps)
qed

lemma dummies_labelled:
  "(l, d) \<in> set (get_dummies_1d fstr c p) \<Longrightarrow> (\<exists>s. l = p @ ''_'' @ s) \<and> (\<exists>bs. d = BoolCol bs)"
  by (cases c) (auto simp: indicator_def)

lemma distinct_indicators:
  assumes "distinct vs" "inj_on str (set vs)"
  shows "distinct (map fst (map (indicator p str xs eq) vs))"
proof -
  have "map fst (map (indicator p str xs eq) vs) = map (\<lambda>v. p @ ''_'' @ str v) vs"
    by (simp add: indicator_def comp_def)
  moreover have "inj_on (\<lambda>v. p @ ''_'' @ str v) (set vs)"
    using assms(2) by (auto simp: inj_on_def)
  then have "distinct (map (\<lambda>v. p @ ''_'' @ str v) vs)"
    using assms(1) by (simp add: distinct_map)
  ultimately show ?thesis by (simp only:)
qed

lemma dummies_distinct:
  assumes "distinct_text fstr c"
  shows "distinct (map fst (get_dummies_1d fstr c p))"
proof (cases c)
  case (FloatCol xs)
  with assms have "inj_on fstr (set (sort (remdups (dropna xs))))"
    by (simp add: distinct_map)
  with FloatCol show ?thesis
    by (simp del: map_map add: distinct_indicators)
next
  case (IntCol xs)
  have "inj_on str_int (set (sort (remdups xs)))" using inj_str_int by (rule inj_on_subset) simp
  with IntCol show ?thesis by (simp del: map_map add: distinct_indicators)
next
  case (BoolCol xs)
  have "inj_on str_bool (set (sort (remdups xs)))" using inj_str_bool by (rule inj_on_subset) simp
  with BoolCol show ?thesis by (simp del: map_map add: distinct_indicators)
next
  case (ObjCol xs)
  have "inj_on (\<lambda>s::string. s) (set (sort (remdups (dropna xs))))" by (simp add: inj_on_def)
  with ObjCol show ?thesis by (simp del: map_map add: distinct_indicators)
qed

lemma filter_head_label:
  assumes "distinct (map fst ((l0, c0) # rest))"
  shows "filter (\<lambda>(l, c). l \<noteq> l0) ((l0, c0) # rest) = rest"
proof -
  from assms have "l0 \<notin> fst ` set rest" by simp
  then have "\<forall>p \<in> set rest. (\<lambda>(l, c). l \<noteq> l0) p" by (auto simp: image_iff)
  then have "filter (\<lambda>(l, c). l \<noteq> l0) rest = rest" by (simp add: filter_id_conv)
  then show ?thesis by simp
qed

lemma filter_other_label:
  assumes "\<forall>(l, d) \<in> set ds. l \<noteq> f"
  shows "filter (\<lambda>(l, c). l \<noteq> f) ds = ds"
  using assms by (auto simp: filter_id_conv)

lemma encode_feature_Series:
  assumes g: "getitem df f = Inr (Series c)" and t: "distinct_text fstr c"
  shows "encode_feature fstr f df =
     (case get_dummies_1d fstr c f of
        [] \<Rightarrow> Inl IndexError
      | (l0, c0) # inds \<Rightarrow>
          Inr (df\<lparr>cols := filter (\<lambda>(l, c). l \<noteq> f \<and> l \<noteq> l0) (cols df) @ inds\<rparr>))"
proof -
  let ?ds = "get_dummies_1d fstr c f"
  from g have m: "f \<in> set (columns df)"
    by (auto simp: columns_def dest!: getitem_Series intro: rev_image_eqI)
  have nf: "\<forall>(l, d) \<in> set ?ds. l \<noteq> f" by (auto dest!: dummies_labelled)
  have d2: "drop_label (concat_columns df ?ds) f
              = Inr (df\<lparr>cols := filter (\<lambda>(l, c). l \<noteq> f) (cols df) @ ?ds\<rparr>)"
    using m by (simp add: drop_label_def concat_columns_def columns_def filter_other_label [OF nf])
  show ?thesis
  proof (cases ?ds)
    case Nil
    with g d2 show ?thesis by (simp add: encode_feature_def get_dummies_def Let_def)
  next
    case (Cons p inds)
    obtain l0 c0 where p: "p = (l0, c0)" by (cases p)
    from dummies_distinct [OF t, of f] Cons p
    have "distinct (map fst ((l0, c0) # inds))" by simp
    then have "filter (\<lambda>(l, c). l \<noteq> l0) ((l0, c0) # inds) = inds" by (rule filter_head_label)
    with Cons p have "filter (\<lambda>(l, c). l \<noteq> l0) ?ds = inds" by simp
    moreover have "filter (\<lambda>(l, c). l \<noteq> l0) (filter (\<lambda>(l, c). l \<noteq> f) (cols df))
        = filter (\<lambda>(l, c). l \<noteq> f \<and> l \<noteq> l0) (cols df)"
      by (simp add: case_prod_unfold conj_commute)
    ultimately have "drop_label (df\<lparr>cols := filter (\<lambda>(l, c). l \<noteq> f) (cols df) @ ?ds\<rparr>) l0
        = Inr (df\<lparr>cols := filter (\<lambda>(l, c). l \<noteq> f \<and> l \<noteq> l0) (cols df) @ inds\<rparr>)"
      using Cons p by (simp add: drop_label_def columns_def)
    with g d2 Cons p show ?thesis by (simp add: encode_feature_def get_dummies_def Let_def)
  qed
qed

text \<open>
  C4. For a column \<open>c\<close> that alone carries the label \<open>f\<close> and holds \<open>k\<close> different
  values, the encoding step fails when \<open>k\<close> is 0 and otherwise returns the frame without
  the column \<open>f\<close> and without the first indicator column, followed by the other
  \<open>k - 1\<close> indicator columns; every indicator label starts with \<open>f\<close> and an underscore.
  (The label of the first indicator is dropped wherever it stands in the frame.)
\<close>

theorem encode_feature_indicators:
  assumes "getitem df f = Inr (Series c)" and "distinct_text fstr c"
  shows "(nunique c = 0 \<longrightarrow> encode_feature fstr f df = Inl IndexError) \<and>
         (0 < nunique c \<longrightarrow>
            (\<exists>l0 c0 inds. get_dummies_1d fstr c f = (l0, c0) # inds \<and>
               length inds = nunique c - 1 \<and>
               encode_feature fstr f df
                 = Inr (df\<lparr>cols := filter (\<lambda>(l, c). l \<noteq> f \<and> l \<noteq> l0) (cols df) @ inds\<rparr>) \<and>
               (\<forall>(l, d) \<in> set ((l0, c0) # inds).
                  (\<exists>s. l = f @ ''_'' @ s) \<and> (\<exists>bs. d = BoolCol bs))))"
proof (cases "get_dummies_1d fstr c f")
  case Nil
  with nunique_levels [of fstr c f] encode_feature_Series [OF assms] show ?thesis by simp
next
  case (Cons p inds)
  obtain l0 c0 where p: "p = (l0, c0)" by (cases p)
  have "\<forall>(l, d) \<in> set ((l0, c0) # inds). (\<exists>s. l = f @ ''_'' @ s) \<and> (\<exists>bs. d = BoolCol bs)"
    using dummies_labelled [of _ _ fstr c f] Cons p by auto
  with nunique_levels [of fstr c f] encode_feature_Series [OF assms] Cons p show ?thesis by auto
qed

theorem encode_feature_indicators_witness:
  "getitem kidney_filled ''classification''
     = Inr (Series (ObjCol [Some ''ckd'', Some ''ckd'', Some ''notckd''])) \<and>
   distinct_text str_whole_float (ObjCol [Some ''ckd'', Some ''ckd'', Some ''notckd'']) \<and>
   nunique (ObjCol [Some ''ckd'', Some ''ckd'', Some ''notckd'']) = 2 \<and>
   encode_feature str_whole_float ''classification'' kidney_filled
     = Inr \<lparr>nrows = 3,
            cols = [(''id'', IntCol [0, 1, 2]), (''age'', FloatCol [Some 48, Some 55, Some 62]),
                    (''classification_notckd'', BoolCol [False, False, True])]\<rparr> \<and>
   getitem kidney_filled ''age'' = Inr (Series (FloatCol [Some 48, Some 55, Some 62])) \<and>
   distinct_text str_whole_float (FloatCol [Some 48, Some 55, Some 62]) \<and>
   nunique (FloatCol [Some 48, Some 55, Some 62]) = 3 \<and>
   encode_feature str_whole_float ''age'' kidney_filled
     = Inr \<lparr>nrows = 3,
            cols = [(''id'', IntCol [0, 1, 2]),
                    (''classification'', ObjCol [Some ''ckd'', Some ''ckd'', Some ''notckd'']),
                    (''age_55.0'', BoolCol [False, True, False]),
                    (''age_62.0'', BoolCol [False, False, True])]\<rparr>"
proof -
  let ?c = "ObjCol [Some ''ckd'', Some ''ckd'', Some ''notckd'']"
  let ?a = "FloatCol [Some 48, Some 55, Some 62]"
  have g: "getitem kidney_filled ''classification'' = Inr (Series ?c)"
    by (simp add: kidney_filled_def getitem_def)
  have t: "distinct_text str_whole_float ?c" by simp
  have ds: "get_dummies_1d str_whole_float ?c ''classification''
      = [(''classification_ckd'', BoolCol [True, True, False]),
         (''classification_notckd'', BoolCol [False, False, True])]"
    by (simp add: stage_defs)
  have n: "nunique ?c = 2"
    using nunique_levels [of str_whole_float ?c "''classification''"] by (simp only: ds) simp
  have g': "getitem kidney_filled ''age'' = Inr (Series ?a)"
    by (simp add: kidney_filled_def getitem_def)
  have t': "distinct_text str_whole_float ?a" by (simp add: dropna_def str_defs)
  have ds': "get_dummies_1d str_whole_float ?a ''age''
      = [(''age_48.0'', BoolCol [True, False, False]), (''age_55.0'', BoolCol [False, True, False]),
         (''age_62.0'', BoolCol [False, False, True])]"
    by (simp add: stage_defs str_defs)
  have n': "nunique ?a = 3"
    using nunique_levels [of str_whole_float ?a "''age''"] by (simp only: ds') simp
  from encode_feature_indicators [OF g t] encode_feature_indicators [OF g' t'] n ds n' ds' g t g' t'
  show ?thesis by (auto simp: kidney_filled_def)
qed

subsection \<open>Within the pipeline the encoded label is carried by one column\<close>

lemma getitem_Frame_length:
  "getitem df f = Inr (Frame fr) \<Longrightarrow> 2 \<le> length (cols fr)"
  by (auto simp: getitem_def split: list.splits prod.splits)

lemma count_obj_labels:
  "count_list (obj_labels df) f
     = length (filter (\<lambda>(l, c). dtypes c = Object) (filter (\<lambda>(l, c). l = f) (cols df)))"
proof -
  have "count_list (map fst ps) f
          = length (filter (\<lambda>(l, c). l = f) ps)" for ps :: "(label \<times> column) list"
    by (simp add: count_label_list)
  then have "count_list (obj_labels df) f
      = length (filter (\<lambda>(l, c). l = f) (filter (\<lambda>(l, c). dtypes c = Object) (cols df)))"
    by (simp add: obj_labels_def)
  also have "\<dots> = length (filter (\<lambda>(l, c). dtypes c = Object) (filter (\<lambda>(l, c). l = f) (cols df)))"
    by (simp add: conj_commute case_prod_unfold)
  finally show ?thesis .
qed

lemma frame_passthrough:
  assumes "distinct (obj_labels df)" "getitem df f = Inr (Frame fr)"
  shows "\<exists>c rest. filter (\<lambda>(l, c). dtypes c \<noteq> Object) (cols fr) = (f, c) # rest"
proof -
  from getitem_Frame [OF assms(2)] have c: "cols fr = filter (\<lambda>(l, c). l = f) (cols df)" by simp
  have "count_list (obj_labels df) f \<le> 1"
    using assms(1) by (simp add: count_list_distinct)
  with c have o: "length (filter (\<lambda>(l, c). dtypes c = Object) (cols fr)) \<le> 1"
    by (simp add: count_obj_labels)
  have "length (filter (\<lambda>(l, c). dtypes c = Object) (cols fr))
      + length (filter (\<lambda>(l, c). dtypes c \<noteq> Object) (cols fr)) = length (cols fr)"
    using sum_length_filter_compl [of "\<lambda>(l, c). dtypes c = Object" "cols fr"]
    by (simp add: case_prod_unfold)
  with o getitem_Frame_length [OF assms(2)]
  have "filter (\<lambda>(l, c). dtypes c \<noteq> Object) (cols fr) \<noteq> []" by auto
  then obtain p rest where e: "filter (\<lambda>(l, c). dtypes c \<noteq> Object) (cols fr) = p # rest"
    by (cases "filter (\<lambda>(l, c). dtypes c \<noteq> Object) (cols fr)") auto
  then have "p \<in> set (filter (\<lambda>(l, c). dtypes c \<noteq> Object) (cols fr))" by simp
  with c have "fst p = f" by auto
  with e show ?thesis by (cases p) auto
qed

lemma encode_feature_unique:
  assumes "distinct (obj_labels df)" "encode_feature fstr f df = Inr df'"
  shows "\<exists>c. getitem df f = Inr (Series c)"
proof -
  from encode_feature_Inr [OF assms(2)] obtain sel df2 l0 c0 rest where
    g: "getitem df f = Inr sel" and
    ds: "get_dummies fstr sel f = (l0, c0) # rest" and
    d2: "drop_label (concat_columns df (get_dummies fstr sel f)) f = Inr df2" and
    d3: "drop_label df2 l0 = Inr df'"
    by blast
  show ?thesis
  proof (cases sel)
    case (Series c)
    with g show ?thesis by simp
  next
    case (Frame fr)
    with g assms(1) obtain c tl where
      "filter (\<lambda>(l, c). dtypes c \<noteq> Object) (cols fr) = (f, c) # tl"
      using frame_passthrough by blast
    with ds Frame have "l0 = f" by (simp add: get_dummies_def)
    moreover from d2 have "f \<notin> set (columns df2)"
      by (auto simp: drop_label_def columns_def split: if_splits)
    ultimately have "drop_label df2 l0 = Inl KeyError" by (simp add: drop_label_def)
    with d3 show ?thesis by simp
  qed
qed

lemma dummies_not_object: "(l, d) \<in> set (get_dummies fstr sel p) \<Longrightarrow> dtypes d \<noteq> Object"
  by (cases sel) (auto simp: get_dummies_def dest!: dummies_labelled)

lemma distinct_map_fst_filter:
  "distinct (map fst (filter P ps)) \<Longrightarrow> distinct (map fst (filter P (filter Q ps)))"
proof -
  assume d: "distinct (map fst (filter P ps))"
  have "filter P (filter Q ps) = filter Q (filter P ps)"
    by (induction ps) auto
  moreover from d have "distinct (map fst (filter Q (filter P ps)))"
    by (rule distinct_map_filter)
  ultimately show ?thesis by (simp only:)
qed

lemma encode_feature_obj_labels:
  assumes "distinct (obj_labels df)" "encode_feature fstr f df = Inr df'"
  shows "distinct (obj_labels df')"
proof -
  from encode_feature_Inr [OF assms(2)] obtain sel df2 l0 where
    d2: "drop_label (concat_columns df (get_dummies fstr sel f)) f = Inr df2" and
    d3: "drop_label df2 l0 = Inr df'"
    by blast
  have "filter (\<lambda>(l, c). dtypes c = Object) (get_dummies fstr sel f) = []"
    by (auto simp: filter_empty_conv dest: dummies_not_object)
  with assms(1) have 1: "distinct (obj_labels (concat_columns df (get_dummies fstr sel f)))"
    by (simp add: obj_labels_def concat_columns_def)
  have step: "distinct (obj_labels t')"
    if "distinct (obj_labels t)" "drop_label t g = Inr t'" for t t' g
  proof -
    from that(2) have "cols t' = filter (\<lambda>(l, c). l \<noteq> g) (cols t)"
      by (auto simp: drop_label_def split: if_splits)
    with that(1) show ?thesis by (simp add: obj_labels_def distinct_map_fst_filter del: filter_filter)
  qed
  from step [OF 1 d2] d3 show ?thesis by (rule step)
qed

section \<open>The two reductions\<close>

lemma length_feature_names: "length (feature_names n) = nat n"
  by (simp add: feature_names_def)

lemma projected_shape: "shape (projected r k entry) = [r, k] \<and> well_shaped (projected r k entry)"
  by (simp add: projected_def list_all_iff)

lemma pca_fit_transform_Inr:
  assumes "pca_fit_transform solve n X = Inr Y"
  shows "\<exists>r c m entry. X = Array2 r c m \<and> 0 \<le> n \<and> n \<le> int (min r c) \<and>
           solve n X = Inr entry \<and> Y = projected r (nat n) entry"
proof (cases X)
  case (Array1 xs)
  with assms show ?thesis by (simp add: pca_fit_transform_def)
next
  case (Array2 r c m)
  with assms show ?thesis
    by (auto simp: pca_fit_transform_def and_then_Inr split: if_splits)
qed

lemma tsne_fit_transform_Inr:
  assumes "tsne_fit_transform solve n X = Inr Y"
  shows "\<exists>r c m entry. X = Array2 r c m \<and> 0 \<le> n \<and> n < 4 \<and>
           solve n X = Inr entry \<and> Y = projected r (nat n) entry"
proof (cases X)
  case (Array1 xs)
  with assms show ?thesis by (simp add: tsne_fit_transform_def)
next
  case (Array2 r c m)
  with assms show ?thesis
    by (auto simp: tsne_fit_transform_def and_then_Inr split: if_splits)
qed

text \<open>
  C6, as stated, fails for a target dimension that scikit-learn refuses: on a matrix of
  2 rows and 3 columns \<open>pca\<close> raises for \<open>n = 5\<close>, and \<open>tsne\<close> raises for \<open>n = 4\<close>; no tuple
  is returned.
\<close>

theorem reduction_out_of_range_counterexample:
  "pca leading (Array2 2 3 [[VInt 1, VInt 2, VInt 3], [VInt 4, VInt 5, VInt 6]],
       Array1 [VInt 0, VInt 1], [''a'', ''b'', ''c'', ''y'']) 5 = Inl ValueError \<and>
   tsne leading (Array2 2 3 [[VInt 1, VInt 2, VInt 3], [VInt 4, VInt 5, VInt 6]],
       Array1 [VInt 0, VInt 1], [''a'', ''b'', ''c'', ''y'']) 4 = Inl ValueError"
  by (simp add: pca_def tsne_def pca_fit_transform_def tsne_fit_transform_def)

text \<open>
  C6, amended. Whenever \<open>pca\<close> or \<open>tsne\<close> returns, the feature matrix it returns has the
  rows of the input matrix and \<open>n\<close> columns, the label array is that of the input, and the
  names are \<open>feature_1\<close> to \<open>feature_n\<close> in this order. \<open>pca\<close> returns when \<open>n\<close> lies
  between 0 and the smaller of the numbers of rows and columns of the input and the
  numerical routine returns, \<open>tsne\<close> when \<open>n\<close> lies between 0 and 3 and the routine
  returns; for any other \<open>n\<close> they raise \<^verbatim>\<open>ValueError\<close>.
\<close>

theorem reduction_result:
  "(pca solve (X, y, names) n = Inr r \<longrightarrow>
      (\<exists>rows feats m. X = Array2 rows feats m \<and> 0 \<le> n \<and> n \<le> int (min rows feats) \<and>
         shape (fst r) = [rows, nat n]) \<and>
      well_shaped (fst r) \<and> fst (snd r) = y \<and>
      snd (snd r) = map (\<lambda>i. ''feature_'' @ str_int i) [1..n] \<and> length (snd (snd r)) = nat n) \<and>
   (tsne solve (X, y, names) n = Inr r' \<longrightarrow>
      (\<exists>rows feats m. X = Array2 rows feats m \<and> 0 \<le> n \<and> n < 4 \<and>
         shape (fst r') = [rows, nat n]) \<and>
      well_shaped (fst r') \<and> fst (snd r') = y \<and>
      snd (snd r') = map (\<lambda>i. ''feature_'' @ str_int i) [1..n] \<and> length (snd (snd r')) = nat n) \<and>
   (X = Array2 rows feats m \<and> 0 \<le> n \<and> n \<le> int (min rows feats) \<and> solve n X = Inr entry \<longrightarrow>
      pca solve (X, y, names) n
        = Inr (projected rows (nat n) entry, y, map (\<lambda>i. ''feature_'' @ str_int i) [1..n])) \<and>
   (X = Array2 rows feats m \<and> 0 \<le> n \<and> n < 4 \<and> solve n X = Inr entry \<longrightarrow>
      tsne solve (X, y, names) n
        = Inr (projected rows (nat n) entry, y, map (\<lambda>i. ''feature_'' @ str_int i) [1..n])) \<and>
   (X = Array2 rows feats m \<and> (n < 0 \<or> int (min rows feats) < n) \<longrightarrow>
      pca solve (X, y, names) n = Inl ValueError) \<and>
   (n < 0 \<or> 4 \<le> n \<longrightarrow> tsne solve (X, y, names) n = Inl ValueError)"
proof (intro conjI impI)
  assume a: "pca solve (X, y, names) n = Inr r"
  then obtain Y where f: "pca_fit_transform solve n X = Inr Y" and r: "r = (Y, y, feature_names n)"
    by (auto simp: pca_def and_then_Inr)
  from pca_fit_transform_Inr [OF f] obtain rows feats m entry where
    x: "X = Array2 rows feats m" "0 \<le> n" "n \<le> int (min rows feats)"
    and y: "Y = projected rows (nat n) entry"
    by blast
  from x y r show "\<exists>rows feats m. X = Array2 rows feats m \<and> 0 \<le> n \<and> n \<le> int (min rows feats) \<and>
         shape (fst r) = [rows, nat n]"
    by (simp add: projected_shape)
  from y r show "well_shaped (fst r)" by (simp add: projected_shape)
  from r show "fst (snd r) = y" by simp
  from r show "snd (snd r) = map (\<lambda>i. ''feature_'' @ str_int i) [1..n]"
    by (simp add: feature_names_def)
  from r show "length (snd (snd r)) = nat n" by (simp add: length_feature_names)
next
  assume a: "tsne solve (X, y, names) n = Inr r'"
  then obtain Y where f: "tsne_fit_transform solve n X = Inr Y" and r: "r' = (Y, y, feature_names n)"
    by (auto simp: tsne_def and_then_Inr)
  from tsne_fit_transform_Inr [OF f] obtain rows feats m entry where
    x: "X = Array2 rows feats m" "0 \<le> n" "n < 4"
    and y: "Y = projected rows (nat n) entry"
    by blast
  from x y r show "\<exists>rows feats m. X = Array2 rows feats m \<and> 0 \<le> n \<and> n < 4 \<and>
         shape (fst r') = [rows, nat n]"
    by (simp add: projected_shape)
  from y r show "well_shaped (fst r')" by (simp add: projected_shape)
  from r show "fst (snd r') = y" by simp
  from r show "snd (snd r') = map (\<lambda>i. ''feature_'' @ str_int i) [1..n]"
    by (simp add: feature_names_def)
  from r show "length (snd (snd r')) = nat n" by (simp add: length_feature_names)
next
  assume "X = Array2 rows feats m \<and> 0 \<le> n \<and> n \<le> int (min rows feats) \<and> solve n X = Inr entry"
  then show "pca solve (X, y, names) n
        = Inr (projected rows (nat n) entry, y, map (\<lambda>i. ''feature_'' @ str_int i) [1..n])"
    by (auto simp: pca_def pca_fit_transform_def feature_names_def)
next
  assume "X = Array2 rows feats m \<and> 0 \<le> n \<and> n < 4 \<and> solve n X = Inr entry"
  then show "tsne solve (X, y, names) n
        = Inr (projected rows (nat n) entry, y, map (\<lambda>i. ''feature_'' @ str_int i) [1..n])"
    by (auto simp: tsne_def tsne_fit_transform_def feature_names_def)
next
  assume "X = Array2 rows feats m \<and> (n < 0 \<or> int (min rows feats) < n)"
  then show "pca solve (X, y, names) n = Inl ValueError"
    by (auto simp: pca_def pca_fit_transform_def)
next
  assume "n < 0 \<or> 4 \<le> n"
  then show "tsne solve (X, y, names) n = Inl ValueError"
    by (cases X) (auto simp: tsne_def tsne_fit_transform_def)
qed

lemma upto_1_2: "[1..2] = [1, 2::int]"
  by (simp add: upto.simps)

theorem reduction_result_witness:
  "pca leading (Array2 2 3 [[VInt 1, VInt 2, VInt 3], [VInt 4, VInt 5, VInt 6]],
       Array1 [VInt 0, VInt 1], [''a'', ''b'', ''c'', ''y'']) 2
     = Inr (Array2 2 2 [[VInt 1, VInt 2], [VInt 4, VInt 5]], Array1 [VInt 0, VInt 1],
         [''feature_1'', ''feature_2'']) \<and>
   tsne leading (Array2 2 3 [[VInt 1, VInt 2, VInt 3], [VInt 4, VInt 5, VInt 6]],
       Array1 [VInt 0, VInt 1], [''a'', ''b'', ''c'', ''y'']) 2
     = Inr (Array2 2 2 [[VInt 1, VInt 2], [VInt 4, VInt 5]], Array1 [VInt 0, VInt 1],
         [''feature_1'', ''feature_2'']) \<and>
   shape (Array2 2 2 [[VInt 1, VInt 2], [VInt 4, VInt 5]]) = [2, nat 2] \<and>
   pca leading (Array2 2 3 [[VInt 1, VInt 2, VInt 3], [VInt 4, VInt 5, VInt 6]],
       Array1 [VInt 0, VInt 1], [''a'', ''b'', ''c'', ''y'']) 3 = Inl ValueError \<and>
   tsne leading (Array2 2 3 [[VInt 1, VInt 2, VInt 3], [VInt 4, VInt 5, VInt 6]],
       Array1 [VInt 0, VInt 1], [''a'', ''b'', ''c'', ''y'']) (- 1) = Inl ValueError"
proof -
  let ?m = "[[VInt 1, VInt 2, VInt 3], [VInt 4, VInt 5, VInt 6]]"
  let ?X = "Array2 2 3 ?m"
  let ?y = "Array1 [VInt 0, VInt 1]"
  let ?names = "[''a'', ''b'', ''c'', ''y'']"
  have s: "leading 2 ?X = Inr (\<lambda>i j. ?m ! i ! j)" by simp
  have p: "projected 2 2 (\<lambda>i j. ?m ! i ! j) = Array2 2 2 [[VInt 1, VInt 2], [VInt 4, VInt 5]]"
    by (simp add: projected_def upt_conv_Cons)
  note t = reduction_result [where solve = leading and X = ?X and y = ?y and names = ?names
      and rows = 2 and feats = 3 and m = ?m]
  from t [where n = 2 and entry = "\<lambda>i j. ?m ! i ! j"] s
  have 1: "pca leading (?X, ?y, ?names) 2
      = Inr (projected 2 (nat 2) (\<lambda>i j. ?m ! i ! j), ?y, map (\<lambda>i. ''feature_'' @ str_int i) [1..2])"
    and 2: "tsne leading (?X, ?y, ?names) 2
      = Inr (projected 2 (nat 2) (\<lambda>i j. ?m ! i ! j), ?y, map (\<lambda>i. ''feature_'' @ str_int i) [1..2])"
    by simp_all
  from t [where n = 3] have 3: "pca leading (?X, ?y, ?names) 3 = Inl ValueError" by simp
  from t [where n = "- 1"] have 4: "tsne leading (?X, ?y, ?names) (- 1) = Inl ValueError" by simp
  from 1 2 3 4 show ?thesis by (simp add: p upto_1_2 str_defs)
qed

section \<open>The first record of the file\<close>

lemma read_decimal_first: "read_csv decimal_first_file na = Inr decimal_first"
  by (simp add: read_csv_def decimal_first_file_def decimal_first_def)

lemma py_int_decimal: "py_int ''1.5'' = None"
  by (simp add: py_int_def strip_def is_space_def parse_unsigned_def is_digit_def)

lemma check_decimal_first: "check_header decimal_first"
  by (simp add: check_header_iff decimal_first_def columns_def py_int_decimal py_int_alpha
      is_alpha_def)

lemma decimal_first_cleaning:
  "cleaning exact_mean str_whole_float decimal_first [] [] []
     = Inr (Cleaned (Array2 1 1 [[VInt 7]]) (Array1 [VStr ''b'']) [''1.5'', ''a''])"
  by (simp add: cleaning_def decimal_first_def stage_defs)

text \<open>
  C9 on the headerless file whose records are \<^verbatim>\<open>1.5,a\<close> and \<^verbatim>\<open>7,b\<close>, with the
  header \<open>x\<close>, \<open>y\<close> supplied: no field of the first record is an integer, so the detector
  takes the record for a header, the supplied header is not assigned, and the fields of
  the first record are returned as the names. The claim has the supplied header replace
  them, as have the docstrings: a numerical element among the labels means that there is
  no header, and a header that is given becomes the column names.
\<close>

theorem supplied_header_ignored:
  "read_csv decimal_first_file [] = Inr decimal_first \<and> check_header decimal_first \<and>
   preprocessing exact_mean str_whole_float decimal_first_file [] [] [] [] [''x'', ''y'']
     = Inr (Cleaned (Array2 1 1 [[VInt 7]]) (Array1 [VStr ''b'']) [''1.5'', ''a''])"
  by (simp add: preprocessing_def read_decimal_first check_decimal_first decimal_first_cleaning)

section \<open>Columns without a present value\<close>

lemma and_then_Inl: "and_then m f = Inl e \<longleftrightarrow> m = Inl e \<or> (\<exists>x. m = Inr x \<and> f x = Inl e)"
  by (cases m) auto

lemma py_round_Inl:
  "py_round x = Inl e \<longleftrightarrow>
     (x = NotANumber \<and> e = ValueError) \<or> ((x = PosInf \<or> x = NegInf) \<and> e = OverflowError)"
  by (cases x) auto

lemma dropna_replicate: "dropna (replicate k None) = []"
  by (induction k) (simp_all add: dropna_def)

lemma fill_column_Float_raises:
  "fill_column fmean (FloatCol xs) = Inl e \<longleftrightarrow>
     (mean fmean xs = NotANumber \<and> e = ValueError) \<or>
     ((mean fmean xs = PosInf \<or> mean fmean xs = NegInf) \<and> e = OverflowError)"
  by (simp add: and_then_Inl py_round_Inl)

lemma fill_column_Float_blank: "fill_column fmean (FloatCol (replicate k None)) = Inl ValueError"
  by (simp add: fill_column_Float_raises mean_empty dropna_replicate)

lemma fill_column_Obj_raises:
  "fill_column fmean (ObjCol ys) = Inl e \<longleftrightarrow> (\<forall>y \<in> set ys. y = None) \<and> e = KeyError"
  by (auto simp: and_then_Inl first_mode_Inl dropna_Nil_iff)

lemma fill_column_Int_raises: "fill_column fmean (IntCol zs) = Inl e \<longleftrightarrow> zs = [] \<and> e = KeyError"
  by (auto simp: and_then_Inl first_mode_Inl)

lemma fill_column_Bool_raises: "fill_column fmean (BoolCol bs) = Inl e \<longleftrightarrow> bs = [] \<and> e = KeyError"
  by (auto simp: and_then_Inl first_mode_Inl)

lemma unknown_age_cleaning:
  "cleaning fmean fstr
     \<lparr>nrows = 2, cols = [(''age'', FloatCol [None, None]), (''class'', IntCol [0, 1])]\<rparr> [] [] []
     = Inl ValueError"
  by (simp add: cleaning_def stage_defs)

lemma header_only_cleaning:
  "cleaning fmean fstr
     \<lparr>nrows = 0, cols = [(''age'', ObjCol []), (''class'', ObjCol [])]\<rparr> [] [] []
     = Inl KeyError"
  by (simp add: cleaning_def stage_defs)

lemma check_age_class: "check_header \<lparr>nrows = n, cols = [(''age'', c1), (''class'', c2)]\<rparr>"
  by (simp add: check_header_iff columns_def py_int_alpha is_alpha_def)

text \<open>
  C10. On the file whose column \<open>age\<close> holds the token for a missing value in every
  record, \<open>preprocessing\<close> raises \<^verbatim>\<open>ValueError\<close> when it rounds the mean; on a file
  that ends after its header it raises \<^verbatim>\<open>KeyError\<close> when it indexes the empty mode.
  The body of the imputation loop raises \<^verbatim>\<open>ValueError\<close> on every float column of
  missing values only; on a float column it raises exactly when the mean is NaN
  (\<^verbatim>\<open>ValueError\<close>) or an infinity (\<^verbatim>\<open>OverflowError\<close>), on any other column exactly
  when the column has no present value (\<^verbatim>\<open>KeyError\<close>).
\<close>

theorem imputation_raises:
  "preprocessing fmean fstr unknown_age_file [''?''] [] [] [] [] = Inl ValueError \<and>
   preprocessing fmean fstr header_only_file [] [] [] [] [] = Inl KeyError \<and>
   fill_column fmean (FloatCol (replicate k None)) = Inl ValueError \<and>
   (fill_column fmean (FloatCol xs) = Inl e1 \<longleftrightarrow>
      (mean fmean xs = NotANumber \<and> e1 = ValueError) \<or>
      ((mean fmean xs = PosInf \<or> mean fmean xs = NegInf) \<and> e1 = OverflowError)) \<and>
   (fill_column fmean (ObjCol ys) = Inl e2 \<longleftrightarrow> list_all (\<lambda>y. y = None) ys \<and> e2 = KeyError) \<and>
   (fill_column fmean (IntCol zs) = Inl e3 \<longleftrightarrow> zs = [] \<and> e3 = KeyError) \<and>
   (fill_column fmean (BoolCol bs) = Inl e4 \<longleftrightarrow> bs = [] \<and> e4 = KeyError)"
proof (intro conjI)
  show "preprocessing fmean fstr unknown_age_file [''?''] [] [] [] [] = Inl ValueError"
    by (simp add: preprocessing_def read_csv_def unknown_age_file_def check_age_class
        unknown_age_cleaning)
  show "preprocessing fmean fstr header_only_file [] [] [] [] [] = Inl KeyError"
    by (simp add: preprocessing_def read_csv_def header_only_file_def check_age_class
        header_only_cleaning)
  show "fill_column fmean (FloatCol (replicate k None)) = Inl ValueError"
    by (rule fill_column_Float_blank)
  show "fill_column fmean (FloatCol xs) = Inl e1 \<longleftrightarrow>
      (mean fmean xs = NotANumber \<and> e1 = ValueError) \<or>
      ((mean fmean xs = PosInf \<or> mean fmean xs = NegInf) \<and> e1 = OverflowError)"
    by (rule fill_column_Float_raises)
  show "fill_column fmean (ObjCol ys) = Inl e2 \<longleftrightarrow> list_all (\<lambda>y. y = None) ys \<and> e2 = KeyError"
    using fill_column_Obj_raises [of fmean ys e2] by (simp only: list_all_iff)
  show "fill_column fmean (IntCol zs) = Inl e3 \<longleftrightarrow> zs = [] \<and> e3 = KeyError"
    by (rule fill_column_Int_raises)
  show "fill_column fmean (BoolCol bs) = Inl e4 \<longleftrightarrow> bs = [] \<and> e4 = KeyError"
    by (rule fill_column_Bool_raises)
qed

end
